theory Spec2Isabelle
  imports Complex_Main "HOL-Library.Log_Nat" "HOL-Library.Word"
begin

section \<open>JavaScript numbers\<close>

text \<open>
  A JavaScript Number is an IEEE 754 binary64 value. The finite ones are rationals, so
  a Number is modelled as a rational or one of the four special values: \<open>Fin 0\<close> is the
  zero of positive sign and \<open>NZero\<close> the zero of negative sign, which \<open>Math.atan2\<close> and a
  division tell apart. Every arithmetic operation computes the exact rational result and
  rounds it once, to the nearest binary64 value, ties to even (\<open>round_binary64\<close>).
\<close>

datatype jsnum = Fin rat | NZero | PInf | NInf | NaN

text \<open>The binary exponent of a nonzero rational: \<open>2 powi ilog2 q \<le> \<bar>q\<bar> < 2 powi (ilog2 q + 1)\<close>.\<close>

definition ilog2 :: "rat \<Rightarrow> int" where
  "ilog2 q = (if 1 \<le> \<bar>q\<bar> then bitlen \<lfloor>\<bar>q\<bar>\<rfloor> - 1 else - bitlen (\<lceil>1 / \<bar>q\<bar>\<rceil> - 1))"

definition round_ties_even :: "rat \<Rightarrow> int" where
  "round_ties_even x =
     (let n = \<lfloor>x\<rfloor>; d = x - of_int n
      in if d < 1 / 2 then n else if 1 / 2 < d then n + 1 else if even n then n else n + 1)"

text \<open>
  Rounding to binary64: 53 significant bits, least exponent \<open>-1022\<close> (below it the
  spacing stays \<open>2^-1074\<close>, the subnormal range), overflow to an infinity from \<open>2^1024\<close>,
  and a negative value that rounds to zero gives the negative zero. An exact zero is
  rounded to the positive zero; the operations below give an exact zero its sign.
\<close>

definition round_binary64 :: "rat \<Rightarrow> jsnum" where
  "round_binary64 q =
     (if q = 0 then Fin 0
      else let e = max (ilog2 q) (- 1022);
               ulp = 2 powi (e - 52);
               r = of_int (round_ties_even (q / ulp)) * ulp
           in if 2 ^ 1024 \<le> \<bar>r\<bar> then (if 0 < q then PInf else NInf)
              else if r = 0 \<and> q < 0 then NZero
              else Fin r)"

definition is_finite :: "jsnum \<Rightarrow> bool" where
  "is_finite v = (case v of Fin q \<Rightarrow> True | NZero \<Rightarrow> True | _ \<Rightarrow> False)"

text \<open>
  \<open>js_sign\<close> is the sign of the value, 0 for both zeros and for \<open>NaN\<close>; \<open>signed_zero\<close> is
  the zero whose sign is negative or not.
\<close>

definition js_sign :: "jsnum \<Rightarrow> int" where
  "js_sign v = (case v of Fin q \<Rightarrow> (if 0 < q then 1 else if q < 0 then - 1 else 0)
                | NZero \<Rightarrow> 0 | PInf \<Rightarrow> 1 | NInf \<Rightarrow> - 1 | NaN \<Rightarrow> 0)"

definition signed_inf :: "int \<Rightarrow> jsnum" where
  "signed_inf s = (if 0 < s then PInf else if s < 0 then NInf else NaN)"

definition signed_zero :: "bool \<Rightarrow> jsnum" where
  "signed_zero negative = (if negative then NZero else Fin 0)"

text \<open>
  A sum that is exactly zero is the positive zero, except that the sum of two negative
  zeros is the negative zero.
\<close>

fun js_add :: "jsnum \<Rightarrow> jsnum \<Rightarrow> jsnum" where
  "js_add (Fin a) (Fin b) = round_binary64 (a + b)"
| "js_add (Fin a) NZero = round_binary64 a"
| "js_add NZero (Fin b) = round_binary64 b"
| "js_add NZero NZero = NZero"
| "js_add NaN v = NaN"
| "js_add v NaN = NaN"
| "js_add PInf NInf = NaN"
| "js_add NInf PInf = NaN"
| "js_add PInf v = PInf"
| "js_add NInf v = NInf"
| "js_add v PInf = PInf"
| "js_add v NInf = NInf"

fun js_neg :: "jsnum \<Rightarrow> jsnum" where
  "js_neg (Fin a) = (if a = 0 then NZero else Fin (- a))"
| "js_neg NZero = Fin 0"
| "js_neg PInf = NInf"
| "js_neg NInf = PInf"
| "js_neg NaN = NaN"

definition js_sub :: "jsnum \<Rightarrow> jsnum \<Rightarrow> jsnum" where
  "js_sub u v = js_add u (js_neg v)"

text \<open>
  The sign of a product or quotient is negative when the signs of the operands differ,
  also when the result is a zero or an infinity; an infinity times a zero, a zero by a
  zero and an infinity by an infinity are \<open>NaN\<close>.
\<close>

fun js_mul :: "jsnum \<Rightarrow> jsnum \<Rightarrow> jsnum" where
  "js_mul (Fin a) (Fin b) =
     (if a = 0 \<or> b = 0 then signed_zero ((a < 0) \<noteq> (b < 0)) else round_binary64 (a * b))"
| "js_mul (Fin a) NZero = signed_zero (\<not> a < 0)"
| "js_mul NZero (Fin b) = signed_zero (\<not> b < 0)"
| "js_mul NZero NZero = Fin 0"
| "js_mul NaN v = NaN"
| "js_mul v NaN = NaN"
| "js_mul u v = signed_inf (js_sign u * js_sign v)"

fun js_div :: "jsnum \<Rightarrow> jsnum \<Rightarrow> jsnum" where
  "js_div (Fin a) (Fin b) =
     (if b = 0 then signed_inf (js_sign (Fin a))
      else if a = 0 then signed_zero (b < 0)
      else round_binary64 (a / b))"
| "js_div (Fin a) NZero = signed_inf (- js_sign (Fin a))"
| "js_div NZero (Fin b) = (if b = 0 then NaN else signed_zero (\<not> b < 0))"
| "js_div NZero NZero = NaN"
| "js_div NaN v = NaN"
| "js_div v NaN = NaN"
| "js_div (Fin a) PInf = signed_zero (a < 0)"
| "js_div (Fin a) NInf = signed_zero (\<not> a < 0)"
| "js_div NZero PInf = NZero"
| "js_div NZero NInf = Fin 0"
| "js_div u (Fin b) = signed_inf (js_sign u * (if b < 0 then - 1 else 1))"
| "js_div u NZero = signed_inf (- js_sign u)"
| "js_div u v = NaN"

text \<open>An \<open>unsigned long\<close> attribute of the DOM (the canvas size) read as a Number.\<close>

definition num_of_ulong :: "32 word \<Rightarrow> jsnum" where
  "num_of_ulong w = Fin (of_nat (unat w))"

text \<open>\<open>Math.PI\<close>: the binary64 value nearest to \<open>\<pi>\<close>.\<close>

definition Math_PI :: jsnum where
  "Math_PI = Fin (884279719003555 / 281474976710656)"

section \<open>JavaScript strings\<close>

text \<open>
  A JavaScript string is a sequence of UTF-16 code units. \<open>String.prototype.trim\<close>
  removes the code units of ECMAScript's WhiteSpace and LineTerminator productions from
  both ends. \<open>nat_toString\<close> and \<open>int_toString\<close> are \<open>Number.prototype.toString\<close>
  on an array length and on a time value: plain decimal digits, a minus sign first for
  a negative value.
\<close>

type_synonym jsstring = "16 word list"

definition js :: "string \<Rightarrow> jsstring" where
  "js cs = map of_char cs"

definition is_white_space :: "16 word \<Rightarrow> bool" where
  "is_white_space c \<longleftrightarrow>
     c \<in> {9, 10, 11, 12, 13, 32, 160, 5760, 8232, 8233, 8239, 8287, 12288, 65279}
     \<or> (8192 \<le> c \<and> c \<le> 8202)"

definition trim :: "jsstring \<Rightarrow> jsstring" where
  "trim t = rev (dropWhile is_white_space (rev (dropWhile is_white_space t)))"

definition digit_char :: "nat \<Rightarrow> 16 word" where
  "digit_char d = of_nat (48 + d)"

fun nat_toString :: "nat \<Rightarrow> jsstring" where
  "nat_toString n =
     (if n < 10 then [digit_char n] else nat_toString (n div 10) @ [digit_char (n mod 10)])"

declare nat_toString.simps [simp del]

definition int_toString :: "int \<Rightarrow> jsstring" where
  "int_toString i = (if i < 0 then 45 # nat_toString (nat (- i)) else nat_toString (nat i))"

text \<open>
  \<open>parse_int\<close> reads such a decimal rendering back, as \<open>Number(id)\<close> does on it. The
  program never calls it; it is here to say which number an id stands for.
\<close>

definition digit_value :: "16 word \<Rightarrow> nat" where
  "digit_value c = unat c - 48"

definition parse_nat :: "jsstring \<Rightarrow> nat" where
  "parse_nat cs = foldl (\<lambda>n c. 10 * n + digit_value c) 0 cs"

definition parse_int :: "jsstring \<Rightarrow> int" where
  "parse_int cs =
     (case cs of [] \<Rightarrow> 0
      | c # rest \<Rightarrow> if c = 45 then - int (parse_nat rest) else int (parse_nat cs))"

section \<open>The 2D canvas\<close>

text \<open>
  The canvas of the overlay, with the part of its 2D context that \<open>content.js\<close> uses.
  The \<open>layer\<close> is what has been painted since the canvas was last cleared as a whole:
  every painting call is recorded with its arguments and with the context settings it
  paints with. Rasterisation of the recorded calls is the browser's and is not part of
  the model. A colour is the parsed CSS colour: red, green, blue and alpha.

  The path of the context is the list of the path calls since \<open>beginPath\<close>. A painted
  \<open>Stroke\<close> carries the path, the stroke style, the line width and the line dash; a
  \<open>Fill\<close> the path and the fill style; \<open>FillRect\<close> and \<open>StrokeRect\<close> the corner, width
  and height of the rectangle and then the style (with line width and dash for the
  stroke); \<open>FillText\<close> the text, its anchor, the font and the fill style. A \<open>ClearRect\<close>
  is a clearing of part of the canvas only.
\<close>

datatype color = RGBA nat nat nat rat

datatype path_cmd =
    MoveTo jsnum jsnum
  | LineTo jsnum jsnum
  | Arc jsnum jsnum jsnum jsnum jsnum

datatype painted =
    Stroke "path_cmd list" color jsnum "jsnum list"
  | Fill "path_cmd list" color
  | FillRect jsnum jsnum jsnum jsnum color
  | StrokeRect jsnum jsnum jsnum jsnum color jsnum "jsnum list"
  | FillText jsstring jsnum jsnum jsstring color
  | ClearRect jsnum jsnum jsnum jsnum

record canvas =
  canvas_width :: "32 word"
  canvas_height :: "32 word"
  cursor :: jsstring
  strokeStyle :: color
  fillStyle :: color
  lineWidth :: jsnum
  lineDash :: "jsnum list"
  font :: jsstring
  path :: "path_cmd list"
  layer :: "painted list"

text \<open>\<open>document.createElement('canvas')\<close> with the size and cursor \<open>createOverlay\<close> gives it.\<close>

definition new_canvas :: "32 word \<Rightarrow> 32 word \<Rightarrow> canvas" where
  "new_canvas w h =
     \<lparr>canvas_width = w, canvas_height = h, cursor = js ''crosshair'',
      strokeStyle = RGBA 0 0 0 1, fillStyle = RGBA 0 0 0 1, lineWidth = Fin 1,
      lineDash = [], font = js ''10px sans-serif'', path = [], layer = []\<rparr>"

definition clearRect :: "jsnum \<Rightarrow> jsnum \<Rightarrow> jsnum \<Rightarrow> jsnum \<Rightarrow> canvas \<Rightarrow> canvas" where
  "clearRect x0 y0 w h c =
     (if x0 = Fin 0 \<and> y0 = Fin 0 \<and> w = num_of_ulong (canvas_width c)
         \<and> h = num_of_ulong (canvas_height c)
      then c\<lparr>layer := []\<rparr>
      else c\<lparr>layer := layer c @ [ClearRect x0 y0 w h]\<rparr>)"

definition beginPath :: "canvas \<Rightarrow> canvas" where
  "beginPath c = c\<lparr>path := []\<rparr>"

definition moveTo :: "jsnum \<Rightarrow> jsnum \<Rightarrow> canvas \<Rightarrow> canvas" where
  "moveTo x0 y0 c = c\<lparr>path := path c @ [MoveTo x0 y0]\<rparr>"

definition lineTo :: "jsnum \<Rightarrow> jsnum \<Rightarrow> canvas \<Rightarrow> canvas" where
  "lineTo x0 y0 c = c\<lparr>path := path c @ [LineTo x0 y0]\<rparr>"

definition arc :: "jsnum \<Rightarrow> jsnum \<Rightarrow> jsnum \<Rightarrow> jsnum \<Rightarrow> jsnum \<Rightarrow> canvas \<Rightarrow> canvas" where
  "arc x0 y0 r a0 a1 c = c\<lparr>path := path c @ [Arc x0 y0 r a0 a1]\<rparr>"

definition stroke :: "canvas \<Rightarrow> canvas" where
  "stroke c = c\<lparr>layer := layer c @ [Stroke (path c) (strokeStyle c) (lineWidth c) (lineDash c)]\<rparr>"

definition fill :: "canvas \<Rightarrow> canvas" where
  "fill c = c\<lparr>layer := layer c @ [Fill (path c) (fillStyle c)]\<rparr>"

definition fillRect :: "jsnum \<Rightarrow> jsnum \<Rightarrow> jsnum \<Rightarrow> jsnum \<Rightarrow> canvas \<Rightarrow> canvas" where
  "fillRect x0 y0 w h c = c\<lparr>layer := layer c @ [FillRect x0 y0 w h (fillStyle c)]\<rparr>"

definition strokeRect :: "jsnum \<Rightarrow> jsnum \<Rightarrow> jsnum \<Rightarrow> jsnum \<Rightarrow> canvas \<Rightarrow> canvas" where
  "strokeRect x0 y0 w h c =
     c\<lparr>layer := layer c @ [StrokeRect x0 y0 w h (strokeStyle c) (lineWidth c) (lineDash c)]\<rparr>"

definition fillText :: "jsstring \<Rightarrow> jsnum \<Rightarrow> jsnum \<Rightarrow> canvas \<Rightarrow> canvas" where
  "fillText t x0 y0 c = c\<lparr>layer := layer c @ [FillText t x0 y0 (font c) (fillStyle c)]\<rparr>"

text \<open>
  What the page's browser supplies: the width \<open>measureText\<close> reports for a text in a
  font, and \<open>Math.atan2\<close>, \<open>Math.cos\<close>, \<open>Math.sin\<close>, whose results ECMAScript leaves
  to the implementation.
\<close>

record host =
  measureText :: "jsstring \<Rightarrow> jsstring \<Rightarrow> jsnum"
  Math_atan2 :: "jsnum \<Rightarrow> jsnum \<Rightarrow> jsnum"
  Math_cos :: "jsnum \<Rightarrow> jsnum"
  Math_sin :: "jsnum \<Rightarrow> jsnum"

section \<open>The annotation overlay\<close>

text \<open>
  An annotation object as the click handler creates it. The fields \<open>id\<close>, \<open>text\<close>,
  \<open>x\<close> and \<open>y\<close> of the source are \<open>ann_id\<close>, \<open>ann_text\<close>, \<open>ann_x\<close> and \<open>ann_y\<close>
  here: \<open>(ann_x, ann_y)\<close> is where the label is placed and \<open>(pointer_x, pointer_y)\<close>
  where the arrow points.
\<close>

record annotation =
  ann_id :: jsstring
  ann_text :: jsstring
  ann_x :: jsnum
  ann_y :: jsnum
  pointer_x :: jsnum
  pointer_y :: jsnum
  timestamp :: jsstring

text \<open>
  The screenshot object of the \<open>startAnnotation\<close> message. Its \<open>annotations\<close> may be
  missing. While the overlay is open the source shares that array with the overlay's
  \<open>annotations\<close>; the model keeps the working list in the overlay only, and
  \<open>shot_annotations\<close> is the list as it was loaded or last stored by \<open>saveAndExit\<close>.
\<close>

record screenshot =
  shot_id :: jsstring
  imageData :: jsstring
  displayWidth :: "32 word"
  displayHeight :: "32 word"
  shot_annotations :: "annotation list option"

text \<open>
  The fields of \<open>class AnnotationOverlay\<close>, and the elements of the overlay that its
  handlers read and write: the canvas, the text of \<open>#annotation-status\<close>, the value of
  \<open>#annotation-text-input\<close>, and whether the overlay element is in the document.
\<close>

record overlay =
  isActive :: bool
  screenshot :: "screenshot option"
  annotations :: "annotation list"
  currentAnnotation :: "annotation option"
  isAddingAnnotation :: bool
  pendingText :: jsstring
  canvas :: canvas
  statusText :: jsstring
  inputValue :: jsstring
  attached :: bool

text \<open>\<open>getBoundingClientRect()\<close> of the canvas, and a mouse event with the box at its time.\<close>

record dom_rect =
  rect_left :: jsnum
  rect_top :: jsnum
  rect_width :: jsnum
  rect_height :: jsnum

record mouse_event =
  clientX :: jsnum
  clientY :: jsnum
  boundingClientRect :: dom_rect

text \<open>The clock as a handler reads it: \<open>Date.now()\<close> and \<open>new Date().toISOString()\<close>.\<close>

record clock =
  now :: int
  isoNow :: jsstring

datatype error = EmptyTextError

subsection \<open>drawAnnotations\<close>

text \<open>The body of the \<open>forEach\<close> callback: one committed annotation.\<close>

definition draw_annotation :: "host \<Rightarrow> annotation \<Rightarrow> canvas \<Rightarrow> canvas" where
  "draw_annotation h a c0 =
     (let c = c0\<lparr>strokeStyle := RGBA 255 0 0 1\<rparr>;
          c = c\<lparr>lineWidth := Fin 2\<rparr>;
          c = beginPath c;
          c = moveTo (ann_x a) (ann_y a) c;
          c = lineTo (pointer_x a) (pointer_y a) c;
          c = stroke c;
          angle = Math_atan2 h (js_sub (pointer_y a) (ann_y a)) (js_sub (pointer_x a) (ann_x a));
          arrowLength = Fin 12;
          c = beginPath c;
          c = moveTo (pointer_x a) (pointer_y a) c;
          c = lineTo
                (js_sub (pointer_x a)
                   (js_mul arrowLength (Math_cos h (js_sub angle (js_div Math_PI (Fin 6))))))
                (js_sub (pointer_y a)
                   (js_mul arrowLength (Math_sin h (js_sub angle (js_div Math_PI (Fin 6))))))
                c;
          c = moveTo (pointer_x a) (pointer_y a) c;
          c = lineTo
                (js_sub (pointer_x a)
                   (js_mul arrowLength (Math_cos h (js_add angle (js_div Math_PI (Fin 6))))))
                (js_sub (pointer_y a)
                   (js_mul arrowLength (Math_sin h (js_add angle (js_div Math_PI (Fin 6))))))
                c;
          c = stroke c;
          c = beginPath c;
          c = arc (pointer_x a) (pointer_y a) (Fin 4) (Fin 0) (js_mul (Fin 2) Math_PI) c;
          c = c\<lparr>fillStyle := RGBA 255 0 0 1\<rparr>;
          c = fill c;
          c = c\<lparr>font := js ''14px Arial''\<rparr>;
          textWidth = measureText h (font c) (ann_text a);
          textHeight = Fin 16;
          padding = Fin 6;
          c = c\<lparr>fillStyle := RGBA 255 255 255 (95 / 100)\<rparr>;
          c = fillRect
                (js_sub (ann_x a) padding)
                (js_sub (js_sub (ann_y a) textHeight) padding)
                (js_add textWidth (js_mul padding (Fin 2)))
                (js_add textHeight (js_mul padding (Fin 2)))
                c;
          c = c\<lparr>strokeStyle := RGBA 255 0 0 1\<rparr>;
          c = c\<lparr>lineWidth := Fin 1\<rparr>;
          c = strokeRect
                (js_sub (ann_x a) padding)
                (js_sub (js_sub (ann_y a) textHeight) padding)
                (js_add textWidth (js_mul padding (Fin 2)))
                (js_add textHeight (js_mul padding (Fin 2)))
                c;
          c = c\<lparr>fillStyle := RGBA 0 0 0 1\<rparr>;
          c = fillText (ann_text a) (ann_x a) (js_sub (ann_y a) (Fin 4)) c
      in c)"

text \<open>The block \<open>if (this.currentAnnotation)\<close>: the label of the annotation in progress.\<close>

definition draw_current :: "host \<Rightarrow> annotation \<Rightarrow> canvas \<Rightarrow> canvas" where
  "draw_current h a c0 =
     (let c = c0\<lparr>fillStyle := RGBA 255 255 0 (8 / 10)\<rparr>;
          textWidth = measureText h (font c) (ann_text a);
          c = fillRect
                (js_sub (ann_x a) (Fin 4))
                (js_sub (ann_y a) (Fin 20))
                (js_add textWidth (Fin 8))
                (Fin 20)
                c;
          c = c\<lparr>fillStyle := RGBA 0 0 0 1\<rparr>;
          c = fillText (ann_text a) (ann_x a) (js_sub (ann_y a) (Fin 4)) c
      in c)"

definition drawAnnotations :: "host \<Rightarrow> overlay \<Rightarrow> overlay" where
  "drawAnnotations h s =
     (let c = clearRect (Fin 0) (Fin 0)
                (num_of_ulong (canvas_width (canvas s))) (num_of_ulong (canvas_height (canvas s)))
                (canvas s);
          c = foldl (\<lambda>c a. draw_annotation h a c) c (annotations s);
          c = (case currentAnnotation s of None \<Rightarrow> c | Some a \<Rightarrow> draw_current h a c)
      in s\<lparr>canvas := c\<rparr>)"

subsection \<open>The canvas event handlers\<close>

text \<open>The \<open>const x\<close> and \<open>const y\<close> of both handlers of \<open>setupCanvasEvents\<close>.\<close>

definition event_x :: "mouse_event \<Rightarrow> overlay \<Rightarrow> jsnum" where
  "event_x e s =
     js_mul (js_sub (clientX e) (rect_left (boundingClientRect e)))
            (js_div (num_of_ulong (canvas_width (canvas s))) (rect_width (boundingClientRect e)))"

definition event_y :: "mouse_event \<Rightarrow> overlay \<Rightarrow> jsnum" where
  "event_y e s =
     js_mul (js_sub (clientY e) (rect_top (boundingClientRect e)))
            (js_div (num_of_ulong (canvas_height (canvas s))) (rect_height (boundingClientRect e)))"

definition canvas_click :: "host \<Rightarrow> clock \<Rightarrow> mouse_event \<Rightarrow> overlay \<Rightarrow> overlay" where
  "canvas_click h k e s =
     (if \<not> isAddingAnnotation s then s
      else
        let x0 = event_x e s; y0 = event_y e s
        in case currentAnnotation s of
             None \<Rightarrow>
               s\<lparr>currentAnnotation :=
                    Some \<lparr>ann_id = int_toString (now k), ann_text = pendingText s,
                          ann_x = x0, ann_y = y0, pointer_x = x0, pointer_y = y0,
                          timestamp = isoNow k\<rparr>,
                 statusText := js ''Click where to point the arrow''\<rparr>
           | Some a \<Rightarrow>
               let s1 = s\<lparr>annotations := annotations s @ [a\<lparr>pointer_x := x0, pointer_y := y0\<rparr>]\<rparr>;
                   s2 = s1\<lparr>currentAnnotation := None\<rparr>;
                   s3 = s2\<lparr>isAddingAnnotation := False\<rparr>;
                   s4 = s3\<lparr>canvas := (canvas s3)\<lparr>cursor := js ''default''\<rparr>\<rparr>;
                   s5 = s4\<lparr>statusText := nat_toString (length (annotations s4)) @ js '' annotations''\<rparr>;
                   s6 = s5\<lparr>inputValue := []\<rparr>
               in drawAnnotations h s6)"

definition canvas_mousemove :: "host \<Rightarrow> mouse_event \<Rightarrow> overlay \<Rightarrow> overlay" where
  "canvas_mousemove h e s =
     (case currentAnnotation s of
        None \<Rightarrow> s
      | Some a \<Rightarrow>
          if \<not> isAddingAnnotation s then s
          else
            let x0 = event_x e s; y0 = event_y e s;
                s1 = drawAnnotations h s;
                c = canvas s1;
                c = c\<lparr>strokeStyle := RGBA 255 0 0 (7 / 10)\<rparr>;
                c = c\<lparr>lineWidth := Fin 2\<rparr>;
                c = c\<lparr>lineDash := [Fin 5, Fin 5]\<rparr>;
                c = beginPath c;
                c = moveTo (ann_x a) (ann_y a) c;
                c = lineTo x0 y0 c;
                c = stroke c;
                c = c\<lparr>lineDash := []\<rparr>
            in s1\<lparr>canvas := c\<rparr>)"

subsection \<open>The buttons\<close>

text \<open>
  \<open>startAddingAnnotation\<close>: on a text that is empty after trimming the source shows
  the alert ``Please enter annotation text first'' and returns before it has written
  anything; that outcome is the error value.
\<close>

definition startAddingAnnotation :: "overlay \<Rightarrow> error + overlay" where
  "startAddingAnnotation s =
     (let t = trim (inputValue s)
      in if t = [] then Inl EmptyTextError
         else Inr (s\<lparr>pendingText := t, isAddingAnnotation := True,
                      canvas := (canvas s)\<lparr>cursor := js ''crosshair''\<rparr>,
                      statusText := js ''Click where to place the text''\<rparr>))"

definition cleanup :: "overlay \<Rightarrow> overlay" where
  "cleanup s =
     s\<lparr>attached := False, isActive := False, screenshot := None, annotations := [],
       currentAnnotation := None, isAddingAnnotation := False, pendingText := []\<rparr>"

definition cancel :: "overlay \<Rightarrow> overlay" where
  "cancel s = cleanup s"

text \<open>
  \<open>saveAndExit\<close> up to its first \<open>await\<close>: the working list is stored into the
  screenshot object. On a missing screenshot the assignment throws, the \<open>catch\<close> block
  shows a notification, and nothing is written. The storage calls that follow are the
  extension API's; when they succeed a timer runs \<open>cleanup\<close>.
\<close>

definition saveAndExit :: "overlay \<Rightarrow> overlay" where
  "saveAndExit s =
     s\<lparr>screenshot :=
         (case screenshot s of
            None \<Rightarrow> None
          | Some shot \<Rightarrow> Some (shot\<lparr>shot_annotations := Some (annotations s)\<rparr>))\<rparr>"

text \<open>
  \<open>startAnnotationMode\<close> with the \<open>createOverlay\<close> it calls: the annotations stored
  with the screenshot become the working list, and a new canvas of the screenshot's
  display size, with new controls, replaces the old overlay. The placement fields are
  not touched.
\<close>

definition startAnnotationMode :: "host \<Rightarrow> screenshot \<Rightarrow> overlay \<Rightarrow> overlay" where
  "startAnnotationMode h shot s =
     (let s1 = s\<lparr>screenshot := Some shot\<rparr>;
          s2 = s1\<lparr>annotations := (case shot_annotations shot of None \<Rightarrow> [] | Some anns \<Rightarrow> anns)\<rparr>;
          s3 = s2\<lparr>isActive := True\<rparr>;
          s4 = s3\<lparr>canvas := new_canvas (displayWidth shot) (displayHeight shot),
                  statusText := nat_toString (length (annotations s3)) @ js '' annotations'',
                  inputValue := [], attached := True\<rparr>
      in drawAnnotations h s4)"

text \<open>The object the constructor builds, before any overlay exists.\<close>

definition initial_overlay :: overlay where
  "initial_overlay =
     \<lparr>isActive = False, screenshot = None, annotations = [], currentAnnotation = None,
      isAddingAnnotation = False, pendingText = [], canvas = new_canvas 0 0,
      statusText = [], inputValue = [], attached = False\<rparr>"

subsection \<open>The placement protocol\<close>

text \<open>
  The three placement states of the specification, read off the fields:
  \<open>Idle\<close>, \<open>AwaitingLabelClick\<close> and \<open>AwaitingTargetClick\<close>.
\<close>

definition Idle :: "overlay \<Rightarrow> bool" where
  "Idle s \<longleftrightarrow> \<not> isAddingAnnotation s \<and> currentAnnotation s = None"

definition AwaitingLabelClick :: "overlay \<Rightarrow> bool" where
  "AwaitingLabelClick s \<longleftrightarrow> isAddingAnnotation s \<and> currentAnnotation s = None"

definition AwaitingTargetClick :: "overlay \<Rightarrow> bool" where
  "AwaitingTargetClick s \<longleftrightarrow> isAddingAnnotation s \<and> currentAnnotation s \<noteq> None"

text \<open>
  What the user, the extension and the timer of \<open>saveAndExit\<close> can do to the overlay.
  The events of the first six kinds come from the overlay's own elements (the text
  input, the three buttons, the canvas), so the page delivers them only while the
  overlay is in the document. A handler that returns early or ends in the alert leaves
  the overlay as it was.
\<close>

datatype ui_event =
    TypeText jsstring
  | AddButton
  | CanvasClick clock mouse_event
  | CanvasMove mouse_event
  | CancelButton
  | SaveButton
  | CleanupTimer
  | StartAnnotation screenshot

fun from_overlay_element :: "ui_event \<Rightarrow> bool" where
  "from_overlay_element CleanupTimer = False"
| "from_overlay_element (StartAnnotation shot) = False"
| "from_overlay_element ev = True"

definition dispatch :: "host \<Rightarrow> overlay \<Rightarrow> ui_event \<Rightarrow> overlay" where
  "dispatch h s ev =
     (if from_overlay_element ev \<and> \<not> attached s then s
      else case ev of
        TypeText t \<Rightarrow> s\<lparr>inputValue := t\<rparr>
      | AddButton \<Rightarrow> (case startAddingAnnotation s of Inl err \<Rightarrow> s | Inr s' \<Rightarrow> s')
      | CanvasClick k e \<Rightarrow> canvas_click h k e s
      | CanvasMove e \<Rightarrow> canvas_mousemove h e s
      | CancelButton \<Rightarrow> cancel s
      | SaveButton \<Rightarrow> saveAndExit s
      | CleanupTimer \<Rightarrow> cleanup s
      | StartAnnotation shot \<Rightarrow> startAnnotationMode h shot s)"

definition run :: "host \<Rightarrow> overlay \<Rightarrow> ui_event list \<Rightarrow> overlay" where
  "run h s evs = foldl (dispatch h) s evs"

text \<open>One placement as the user performs it: type the text, press the button, click twice.\<close>

record placement =
  label_text :: jsstring
  first_clock :: clock
  first_click :: mouse_event
  second_clock :: clock
  second_click :: mouse_event

definition placement_events :: "placement \<Rightarrow> ui_event list" where
  "placement_events p =
     [TypeText (label_text p), AddButton,
      CanvasClick (first_clock p) (first_click p), CanvasClick (second_clock p) (second_click p)]"

text \<open>The record such a placement commits when it starts with no annotation in progress.\<close>

definition committed_record ::
  "jsstring \<Rightarrow> clock \<Rightarrow> mouse_event \<Rightarrow> mouse_event \<Rightarrow> overlay \<Rightarrow> annotation" where
  "committed_record t k1 e1 e2 s =
     \<lparr>ann_id = int_toString (now k1), ann_text = trim t,
      ann_x = event_x e1 s, ann_y = event_y e1 s,
      pointer_x = event_x e2 s, pointer_y = event_y e2 s, timestamp = isoNow k1\<rparr>"

text \<open>
  Two facts that every event keeps: a text that is pending or in progress is not empty;
  and while the overlay is in the document its canvas has no line dash set and has the
  font of a new canvas until an annotation has been drawn, \<open>14px Arial\<close> from then on.
\<close>

definition texts_nonempty :: "overlay \<Rightarrow> bool" where
  "texts_nonempty s \<longleftrightarrow>
     (isAddingAnnotation s \<longrightarrow> pendingText s \<noteq> [])
     \<and> (case currentAnnotation s of None \<Rightarrow> True | Some a \<Rightarrow> ann_text a \<noteq> [])"

definition canvas_settled :: "overlay \<Rightarrow> bool" where
  "canvas_settled s \<longleftrightarrow>
     (attached s \<longrightarrow>
        lineDash (canvas s) = []
        \<and> font (canvas s) = (if annotations s = [] then js ''10px sans-serif'' else js ''14px Arial''))"

subsection \<open>What a render paints\<close>

text \<open>
  The picture of one committed annotation, shape by shape in the order of the
  specification: the line from the label position to the target position; the arrowhead,
  two segments from the target to the points 12 units back along the directions 30
  degrees either side of the line; the dot on the target; the background box of the
  label; its border; the text. \<open>current_shapes\<close> is the label of the annotation in
  progress, and \<open>rendered\<close> the whole layer: the committed annotations in the order of
  the list, then the one in progress. The font of the label in progress is the one the
  context has at that point: \<open>14px Arial\<close> once a committed annotation has been drawn.
\<close>

definition line_angle :: "host \<Rightarrow> annotation \<Rightarrow> jsnum" where
  "line_angle h a = Math_atan2 h (js_sub (pointer_y a) (ann_y a)) (js_sub (pointer_x a) (ann_x a))"

definition barb :: "host \<Rightarrow> annotation \<Rightarrow> jsnum \<Rightarrow> path_cmd" where
  "barb h a theta =
     LineTo (js_sub (pointer_x a) (js_mul (Fin 12) (Math_cos h theta)))
            (js_sub (pointer_y a) (js_mul (Fin 12) (Math_sin h theta)))"

definition annotation_shapes :: "host \<Rightarrow> jsnum list \<Rightarrow> annotation \<Rightarrow> painted list" where
  "annotation_shapes h dash a =
     [Stroke [MoveTo (ann_x a) (ann_y a), LineTo (pointer_x a) (pointer_y a)]
        (RGBA 255 0 0 1) (Fin 2) dash,
      Stroke [MoveTo (pointer_x a) (pointer_y a),
              barb h a (js_sub (line_angle h a) (js_div Math_PI (Fin 6))),
              MoveTo (pointer_x a) (pointer_y a),
              barb h a (js_add (line_angle h a) (js_div Math_PI (Fin 6)))]
        (RGBA 255 0 0 1) (Fin 2) dash,
      Fill [Arc (pointer_x a) (pointer_y a) (Fin 4) (Fin 0) (js_mul (Fin 2) Math_PI)]
        (RGBA 255 0 0 1),
      FillRect (js_sub (ann_x a) (Fin 6)) (js_sub (js_sub (ann_y a) (Fin 16)) (Fin 6))
        (js_add (measureText h (js ''14px Arial'') (ann_text a)) (Fin 12)) (Fin 28)
        (RGBA 255 255 255 (19 / 20)),
      StrokeRect (js_sub (ann_x a) (Fin 6)) (js_sub (js_sub (ann_y a) (Fin 16)) (Fin 6))
        (js_add (measureText h (js ''14px Arial'') (ann_text a)) (Fin 12)) (Fin 28)
        (RGBA 255 0 0 1) (Fin 1) dash,
      FillText (ann_text a) (ann_x a) (js_sub (ann_y a) (Fin 4)) (js ''14px Arial'')
        (RGBA 0 0 0 1)]"

definition current_shapes :: "host \<Rightarrow> jsstring \<Rightarrow> annotation \<Rightarrow> painted list" where
  "current_shapes h f a =
     [FillRect (js_sub (ann_x a) (Fin 4)) (js_sub (ann_y a) (Fin 20))
        (js_add (measureText h f (ann_text a)) (Fin 8)) (Fin 20) (RGBA 255 255 0 (4 / 5)),
      FillText (ann_text a) (ann_x a) (js_sub (ann_y a) (Fin 4)) f (RGBA 0 0 0 1)]"

definition rendered ::
  "host \<Rightarrow> jsnum list \<Rightarrow> jsstring \<Rightarrow> annotation list \<Rightarrow> annotation option \<Rightarrow> painted list" where
  "rendered h dash f anns cur =
     concat (map (annotation_shapes h dash) anns)
     @ (case cur of None \<Rightarrow> []
        | Some a \<Rightarrow> current_shapes h (if anns = [] then f else js ''14px Arial'') a)"

text \<open>The canvas a render leaves: the layer, and the context settings it has written.\<close>

definition render_canvas ::
  "host \<Rightarrow> annotation list \<Rightarrow> annotation option \<Rightarrow> canvas \<Rightarrow> canvas" where
  "render_canvas h anns cur c =
     (let c = c\<lparr>layer := rendered h (lineDash c) (font c) anns cur\<rparr>;
          c = (if anns = [] then c
               else c\<lparr>strokeStyle := RGBA 255 0 0 1, fillStyle := RGBA 0 0 0 1,
                      lineWidth := Fin 1, font := js ''14px Arial'',
                      path := [Arc (pointer_x (last anns)) (pointer_y (last anns)) (Fin 4)
                                 (Fin 0) (js_mul (Fin 2) Math_PI)]\<rparr>)
      in if cur = None then c else c\<lparr>fillStyle := RGBA 0 0 0 1\<rparr>)"


subsection \<open>A session on a 1728 by 972 screenshot\<close>

text \<open>
  Concrete inputs for the worked examples: a host that reports seven units of width for
  each code unit of a text and whose \<open>Math\<close> functions are constant (no statement below
  depends on their values), the screenshot \<open>popup.js\<close> builds (90 per cent of 1920 by
  1080, no annotations yet), the overlay opened on it, and mouse events over a canvas
  that is laid out at its own size or narrower.
\<close>

definition host0 :: host where
  "host0 =
     \<lparr>measureText = (\<lambda>f t. Fin (of_nat (7 * length t))),
      Math_atan2 = (\<lambda>v u. Fin 0), Math_cos = (\<lambda>v. Fin 1), Math_sin = (\<lambda>v. Fin 0)\<rparr>"

definition shot0 :: screenshot where
  "shot0 =
     \<lparr>shot_id = js ''1700000000000'', imageData = js ''data:image/png;base64,'',
      displayWidth = 1728, displayHeight = 972, shot_annotations = Some []\<rparr>"

definition overlay0 :: overlay where
  "overlay0 = startAnnotationMode host0 shot0 initial_overlay"

definition mouse_at :: "rat \<Rightarrow> rat \<Rightarrow> dom_rect \<Rightarrow> mouse_event" where
  "mouse_at px py r = \<lparr>clientX = Fin px, clientY = Fin py, boundingClientRect = r\<rparr>"

definition box :: "rat \<Rightarrow> rat \<Rightarrow> rat \<Rightarrow> rat \<Rightarrow> dom_rect" where
  "box l t w h = \<lparr>rect_left = Fin l, rect_top = Fin t, rect_width = Fin w, rect_height = Fin h\<rparr>"

definition clock0 :: clock where
  "clock0 = \<lparr>now = 1700000000000, isoNow = js ''2023-11-14T22:13:20.000Z''\<rparr>"

definition clock1 :: clock where
  "clock1 = \<lparr>now = 1700000002500, isoNow = js ''2023-11-14T22:13:22.500Z''\<rparr>"

definition full_box :: dom_rect where
  "full_box = box 0 0 1728 972"

definition bug_here :: jsstring where
  "bug_here = js ''Bug here''"

definition bug_record :: annotation where
  "bug_record =
     \<lparr>ann_id = js ''1700000000000'', ann_text = bug_here, ann_x = Fin 120, ann_y = Fin 80,
      pointer_x = Fin 300, pointer_y = Fin 200, timestamp = js ''2023-11-14T22:13:20.000Z''\<rparr>"

text \<open>The overlay after the text is typed and the button pressed, and after each click.\<close>

definition session_started :: overlay where
  "session_started = run host0 overlay0 [TypeText bug_here, AddButton]"

definition session_labelled :: overlay where
  "session_labelled = dispatch host0 session_started (CanvasClick clock0 (mouse_at 120 80 full_box))"

definition session_committed :: overlay where
  "session_committed = dispatch host0 session_labelled (CanvasClick clock1 (mouse_at 300 200 full_box))"

text \<open>
  A second placement begun after the first, the same placement as one record, a layout
  box of no size, and a click far outside the image.
\<close>

definition session_second :: overlay where
  "session_second = run host0 session_committed [TypeText (js ''Second''), AddButton]"

text \<open>
  The second placement after its first click, at \<open>(300, 80)\<close>, and after the pointer
  has then moved to \<open>(120, 200)\<close>, which paints the dashed preview line.
\<close>

definition second_record :: annotation where
  "second_record =
     \<lparr>ann_id = js ''1700000002500'', ann_text = js ''Second'', ann_x = Fin 300, ann_y = Fin 80,
      pointer_x = Fin 300, pointer_y = Fin 80, timestamp = js ''2023-11-14T22:13:22.500Z''\<rparr>"

definition session_second_labelled :: overlay where
  "session_second_labelled =
     dispatch host0 session_second (CanvasClick clock1 (mouse_at 300 80 full_box))"

definition session_hovering :: overlay where
  "session_hovering =
     dispatch host0 session_second_labelled (CanvasMove (mouse_at 120 200 full_box))"

definition placement0 :: placement where
  "placement0 =
     \<lparr>label_text = bug_here, first_clock = clock0, first_click = mouse_at 120 80 full_box,
      second_clock = clock1, second_click = mouse_at 300 200 full_box\<rparr>"

definition empty_box :: dom_rect where
  "empty_box = box 0 0 0 0"

definition far_click :: mouse_event where
  "far_click = mouse_at 5000 (- 40) full_box"

section \<open>Rounding\<close>

text \<open>
  \<open>ilog2\<close> is the binary exponent, so a rounding can be evaluated once the exponent is
  known, and integers below \<open>2^53\<close> are binary64 values.
\<close>

lemma ilog2_bounds:
  assumes "q \<noteq> 0"
  shows "2 powi ilog2 q \<le> \<bar>q\<bar> \<and> \<bar>q\<bar> < 2 powi (ilog2 q + 1)"
proof (cases "1 \<le> \<bar>q\<bar>")
  case True
  define n where "n = \<lfloor>\<bar>q\<bar>\<rfloor>"
  have n: "0 < n" using True by (simp add: n_def)
  have b1: "1 \<le> bitlen n" using n by (simp add: bitlen_alt_def)
  have il: "ilog2 q = bitlen n - 1" using True by (simp add: ilog2_def n_def)
  from bitlen_bounds [OF n] have lo: "2 ^ nat (bitlen n - 1) \<le> n" and hi: "n < 2 ^ nat (bitlen n)"
    by simp_all
  have "(2::rat) powi (bitlen n - 1) = of_int (2 ^ nat (bitlen n - 1))"
    using b1 by (simp add: power_int_def)
  also have "\<dots> \<le> of_int n" using lo by (simp only: of_int_le_iff)
  also have "\<dots> \<le> \<bar>q\<bar>" by (simp add: n_def)
  finally have A: "2 powi (bitlen n - 1) \<le> \<bar>q\<bar>" .
  have "\<bar>q\<bar> < of_int (n + 1)" unfolding n_def by linarith
  also have "\<dots> \<le> of_int (2 ^ nat (bitlen n))" using hi by (simp only: of_int_le_iff zle_add1_eq_le)
  also have "\<dots> = (2::rat) powi (bitlen n)" using b1 by (simp add: power_int_def)
  finally have B: "\<bar>q\<bar> < 2 powi (bitlen n)" .
  from A B show ?thesis by (simp add: il)
next
  case False
  define x where "x = 1 / \<bar>q\<bar>"
  define m where "m = \<lceil>x\<rceil>"
  have q: "0 < \<bar>q\<bar>" "\<bar>q\<bar> < 1" using assms False by simp_all
  have x1: "1 < x" using q by (simp add: x_def)
  have m2: "0 < m - 1" unfolding m_def using x1 by linarith
  define k where "k = bitlen (m - 1)"
  have k1: "1 \<le> k" using m2 by (simp add: k_def bitlen_alt_def)
  have il: "ilog2 q = - k" using False by (simp add: ilog2_def k_def m_def x_def)
  from bitlen_bounds [OF m2] have lo: "2 ^ nat (k - 1) \<le> m - 1" and hi: "m - 1 < 2 ^ nat k"
    by (simp_all add: k_def)
  have "x \<le> of_int m" by (simp add: m_def)
  also have "\<dots> \<le> of_int (2 ^ nat k)" using hi by (simp only: of_int_le_iff zle_add1_eq_le)
  also have "\<dots> = (2::rat) ^ nat k" by simp
  finally have "1 / \<bar>q\<bar> \<le> 2 ^ nat k" by (simp add: x_def)
  then have "1 / 2 ^ nat k \<le> \<bar>q\<bar>"
    using q by (simp add: field_simps)
  then have A: "2 powi (- k) \<le> \<bar>q\<bar>"
    using k1 by (simp add: power_int_def field_simps)
  have "(2::rat) ^ nat (k - 1) = of_int (2 ^ nat (k - 1))" by simp
  also have "\<dots> \<le> of_int (m - 1)" using lo by (simp only: of_int_le_iff)
  also have "\<dots> < x" unfolding m_def by linarith
  finally have "2 ^ nat (k - 1) < 1 / \<bar>q\<bar>" by (simp add: x_def)
  then have "\<bar>q\<bar> < 1 / 2 ^ nat (k - 1)"
    using q by (simp add: field_simps)
  then have B: "\<bar>q\<bar> < 2 powi (- k + 1)"
    using k1 by (cases "k = 1") (simp_all add: power_int_def field_simps)
  from A B show ?thesis by (simp add: il)
qed

lemma ilog2_eqI:
  assumes "2 powi e \<le> \<bar>q\<bar>" "\<bar>q\<bar> < 2 powi (e + 1)"
  shows "ilog2 q = e"
proof -
  have "\<not> (2::rat) powi e \<le> 0" by (simp add: not_le)
  with assms(1) have "q \<noteq> 0" by auto
  from ilog2_bounds [OF this]
  have lo: "2 powi ilog2 q \<le> \<bar>q\<bar>" and hi: "\<bar>q\<bar> < 2 powi (ilog2 q + 1)" by simp_all
  have "(2::rat) powi e < 2 powi (ilog2 q + 1)" using assms(1) hi by simp
  then have 1: "e < ilog2 q + 1"
    using power_int_increasing [of "ilog2 q + 1" e "2::rat"] by (cases "e < ilog2 q + 1") simp_all
  have "(2::rat) powi ilog2 q < 2 powi (e + 1)" using lo assms(2) by simp
  then have 2: "ilog2 q < e + 1"
    using power_int_increasing [of "e + 1" "ilog2 q" "2::rat"] by (cases "ilog2 q < e + 1") simp_all
  from 1 2 show ?thesis by simp
qed

lemma round_binary64_normal:
  assumes "2 powi e \<le> \<bar>q\<bar>" "\<bar>q\<bar> < 2 powi (e + 1)" "- 1022 \<le> e"
  shows "round_binary64 q =
           (let r = of_int (round_ties_even (q / 2 powi (e - 52))) * 2 powi (e - 52)
            in if 2 ^ 1024 \<le> \<bar>r\<bar> then (if 0 < q then PInf else NInf)
               else if r = 0 \<and> q < 0 then NZero
               else Fin r)"
proof -
  have "\<not> (2::rat) powi e \<le> 0" by (simp add: not_le)
  with assms(1) have "q \<noteq> 0" by auto
  moreover have "max (ilog2 q) (- 1022) = e"
    using ilog2_eqI [OF assms(1,2)] assms(3) by simp
  ultimately show ?thesis
    by (simp add: round_binary64_def Let_def)
qed

lemma floor_rat_numeral_div [simp]:
  "\<lfloor>(numeral a :: rat) / numeral b\<rfloor> = numeral a div numeral b"
  by (metis floor_divide_of_int_eq of_int_numeral)

lemma round_ties_even_of_int: "round_ties_even (of_int m) = m"
  by (simp add: round_ties_even_def)

lemma ilog2_of_int:
  assumes "i \<noteq> 0" "\<bar>i\<bar> < 2 ^ 53"
  shows "0 \<le> ilog2 (of_int i) \<and> ilog2 (of_int i) \<le> 52"
proof -
  have pos: "0 < \<bar>i\<bar>" using assms by simp
  have "\<bar>rat_of_int i\<bar> = of_int \<bar>i\<bar>" by simp
  moreover have "(1::rat) \<le> of_int \<bar>i\<bar>" using pos by (simp only: of_int_1_le_iff)
  ultimately have il: "ilog2 (of_int i) = bitlen \<bar>i\<bar> - 1"
    by (simp add: ilog2_def del: of_int_abs)
  from bitlen_bounds [OF pos] have "(2::int) ^ nat (bitlen \<bar>i\<bar> - 1) \<le> \<bar>i\<bar>" by simp
  also note assms(2)
  finally have "nat (bitlen \<bar>i\<bar> - 1) < 53" by (rule power_less_imp_less_exp [rotated]) simp
  moreover have "1 \<le> bitlen \<bar>i\<bar>" using pos by (simp add: bitlen_alt_def)
  ultimately show ?thesis unfolding il by linarith
qed

lemma round_binary64_of_int:
  assumes "\<bar>i\<bar> < 2 ^ 53"
  shows "round_binary64 (of_int i) = Fin (of_int i)"
proof (cases "i = 0")
  case True
  then show ?thesis by (simp add: round_binary64_def)
next
  case False
  define e where "e = ilog2 (of_int i)"
  define j where "j = nat (52 - e)"
  from ilog2_of_int [OF False assms] have e: "0 \<le> e" "e \<le> 52" by (simp_all add: e_def)
  have mx: "max e (- 1022) = e" using e by simp
  have ulp: "(2::rat) powi (e - 52) = 1 / 2 ^ j"
    using e by (cases "e = 52") (simp_all add: power_int_def j_def field_simps)
  have quo: "rat_of_int i / 2 powi (e - 52) = of_int (i * 2 ^ j)"
    by (simp add: ulp)
  have again: "of_int (round_ties_even (rat_of_int i / 2 powi (e - 52))) * 2 powi (e - 52) = rat_of_int i"
    unfolding quo round_ties_even_of_int by (simp add: ulp)
  have "\<bar>rat_of_int i\<bar> = of_int \<bar>i\<bar>" by simp
  also have "\<dots> < of_int (2 ^ 53)" using assms by (simp only: of_int_less_iff)
  also have "\<dots> < (2::rat) ^ 1024" by simp
  finally have small: "\<not> 2 ^ 1024 \<le> \<bar>rat_of_int i\<bar>" by simp
  show ?thesis
    using False small by (simp add: round_binary64_def Let_def mx again flip: e_def)
qed

lemma round_binary64_numeral [simp]:
  "(numeral n :: int) < 2 ^ 53 \<Longrightarrow> round_binary64 (numeral n) = Fin (numeral n)"
  using round_binary64_of_int [of "numeral n"] by simp

lemma round_binary64_neg_numeral [simp]:
  "(numeral n :: int) < 2 ^ 53 \<Longrightarrow> round_binary64 (- numeral n) = Fin (- numeral n)"
  using round_binary64_of_int [of "- numeral n"] by simp

lemma round_binary64_0 [simp]: "round_binary64 0 = Fin 0"
  by (simp add: round_binary64_def)

lemma round_binary64_1 [simp]: "round_binary64 1 = Fin 1"
  using round_binary64_of_int [of 1] by simp

lemma round_binary64_of_nat:
  "n < 2 ^ 53 \<Longrightarrow> round_binary64 (of_nat n) = Fin (of_nat n)"
  using round_binary64_of_int [of "int n"] by (simp flip: of_nat_less_iff)

lemma round_ties_even_sign:
  "0 \<le> x \<Longrightarrow> 0 \<le> round_ties_even x" "x < 0 \<Longrightarrow> round_ties_even x \<le> 0"
proof -
  assume "0 \<le> x"
  then have "0 \<le> \<lfloor>x\<rfloor>" by simp
  then show "0 \<le> round_ties_even x" by (simp add: round_ties_even_def Let_def)
next
  assume "x < 0"
  then have "\<lfloor>x\<rfloor> \<le> - 1" by (simp add: floor_le_iff)
  then show "round_ties_even x \<le> 0" by (simp add: round_ties_even_def Let_def)
qed

lemma round_binary64_sign:
  assumes "round_binary64 q = Fin r"
  shows "r < 0 \<longleftrightarrow> q < 0"
proof (cases "q = 0")
  case True
  with assms show ?thesis by (simp add: round_binary64_def)
next
  case False
  define ulp :: rat where "ulp = 2 powi (max (ilog2 q) (- 1022) - 52)"
  define n where "n = round_ties_even (q / ulp)"
  have ulp: "0 < ulp" by (simp add: ulp_def)
  from assms False have r: "r = of_int n * ulp" and nz: "\<not> (of_int n * ulp = 0 \<and> q < 0)"
    by (simp_all add: round_binary64_def Let_def n_def ulp_def split: if_splits)
  show ?thesis
  proof (cases "q < 0")
    case True
    then have "q / ulp < 0" using ulp by (simp add: divide_neg_pos)
    from round_ties_even_sign(2) [OF this] have "n \<le> 0" by (simp add: n_def)
    moreover from nz True ulp have "n \<noteq> 0" by simp
    ultimately have "n < 0" by simp
    then have "of_int n * ulp < 0" using ulp by (simp add: mult_neg_pos)
    with True r show ?thesis by simp
  next
    case F: False
    then have "0 \<le> q / ulp" using ulp by simp
    from round_ties_even_sign(1) [OF this] have "0 \<le> n" by (simp add: n_def)
    then have "0 \<le> of_int n * ulp" using ulp by simp
    with F r show ?thesis by simp
  qed
qed

lemma round_binary64_NZero: "round_binary64 q = NZero \<Longrightarrow> q < 0"
  by (simp add: round_binary64_def Let_def split: if_splits)

lemma round_binary64_not_NaN [simp]: "round_binary64 q \<noteq> NaN"
  by (simp add: round_binary64_def Let_def)
section \<open>Special values\<close>

lemma is_finite_simps [simp]:
  "is_finite (Fin q)" "is_finite NZero" "\<not> is_finite PInf" "\<not> is_finite NInf"
  "\<not> is_finite NaN"
  by (simp_all add: is_finite_def)

lemma signed_zero_simps [simp]: "signed_zero False = Fin 0" "signed_zero True = NZero"
  by (simp_all add: signed_zero_def)

lemma js_sub_Fin: "js_sub (Fin a) (Fin b) = round_binary64 (a - b)"
  by (simp add: js_sub_def)

lemma signed_inf_not_finite [simp]: "\<not> is_finite (signed_inf i)"
  by (simp add: signed_inf_def)

lemma js_mul_PInf: "js_mul v PInf = signed_inf (js_sign v)"
  by (cases v) (simp_all add: js_sign_def signed_inf_def)

lemma num_of_ulong_bound:
  assumes "num_of_ulong w = Fin q"
  shows "q = of_nat (unat w)" and "unat w < 2 ^ 53" and "0 \<le> q" and "q = 0 \<longleftrightarrow> w = 0"
proof -
  show q: "q = of_nat (unat w)" using assms by (simp add: num_of_ulong_def)
  have "unat w < 2 ^ 32" using unsigned_less [of w, where 'a = nat] by simp
  then show "unat w < 2 ^ 53" by simp
  show "0 \<le> q" unfolding q by (rule of_nat_0_le_iff)
  show "q = 0 \<longleftrightarrow> w = 0" unfolding q by (simp only: of_nat_eq_0_iff unat_eq_0)
qed

lemma js_div_zero: "js_div (num_of_ulong w) (Fin 0) = (if w = 0 then NaN else PInf)"
proof -
  obtain q where q: "num_of_ulong w = Fin q" by (simp add: num_of_ulong_def)
  from num_of_ulong_bound(3,4) [OF q] show ?thesis
    by (auto simp: q js_sign_def signed_inf_def)
qed

lemma mul_div_zero:
  "js_mul v (js_div (num_of_ulong w) (Fin 0)) = (if w = 0 then NaN else signed_inf (js_sign v))"
  by (cases v) (simp_all add: js_div_zero js_mul_PInf js_sign_def signed_inf_def)

lemma js_mul_zero_left:
  assumes "is_finite (round_binary64 q)"
  shows "js_mul (Fin 0) (round_binary64 q) = signed_zero (q < 0)"
proof (cases "round_binary64 q")
  case (Fin r)
  with round_binary64_sign [OF Fin] show ?thesis by simp
next
  case NZero
  with round_binary64_NZero [OF NZero] show ?thesis by simp
qed (use assms in simp_all)

lemma zero_signs:
  "js_sub NZero (Fin 0) = NZero" "js_sub (Fin 0) (Fin 0) = Fin 0" "js_sub (Fin 5) (Fin 5) = Fin 0"
  "js_sub (Fin 0) NZero = Fin 0" "js_sub NZero NZero = Fin 0"
  "js_mul (Fin 0) (Fin (- 1)) = NZero" "js_mul (Fin (- 3)) NZero = Fin 0"
  "js_div (Fin 1) NZero = NInf" "js_div NZero (Fin 5) = NZero" "js_div (Fin 0) (Fin (- 5)) = NZero"
  "js_div (Fin (- 1)) PInf = NZero" "js_div (Fin 0) (Fin 0) = NaN" "js_div NInf NZero = PInf"
  "js_mul PInf NZero = NaN" "js_add PInf NZero = PInf" "js_neg (Fin 0) = NZero"
  by (simp_all add: js_sub_def js_sign_def signed_inf_def)
section \<open>What the handlers leave alone\<close>

lemma draw_annotation_eq:
  "draw_annotation h a c =
     c\<lparr>strokeStyle := RGBA 255 0 0 1, fillStyle := RGBA 0 0 0 1, lineWidth := Fin 1,
       font := js ''14px Arial'',
       path := [Arc (pointer_x a) (pointer_y a) (Fin 4) (Fin 0) (js_mul (Fin 2) Math_PI)],
       layer := layer c @ annotation_shapes h (lineDash c) a\<rparr>"
  by (simp add: draw_annotation_def Let_def beginPath_def moveTo_def lineTo_def arc_def
      stroke_def fill_def fillRect_def strokeRect_def fillText_def annotation_shapes_def
      barb_def line_angle_def)

lemma draw_current_eq:
  "draw_current h a c =
     c\<lparr>fillStyle := RGBA 0 0 0 1, layer := layer c @ current_shapes h (font c) a\<rparr>"
  by (simp add: draw_current_def Let_def fillRect_def fillText_def current_shapes_def)

lemma draw_all_eq:
  "anns \<noteq> [] \<Longrightarrow>
   foldl (\<lambda>c a. draw_annotation h a c) c anns =
     c\<lparr>strokeStyle := RGBA 255 0 0 1, fillStyle := RGBA 0 0 0 1, lineWidth := Fin 1,
       font := js ''14px Arial'',
       path := [Arc (pointer_x (last anns)) (pointer_y (last anns)) (Fin 4) (Fin 0)
                  (js_mul (Fin 2) Math_PI)],
       layer := layer c @ concat (map (annotation_shapes h (lineDash c)) anns)\<rparr>"
proof (induction anns arbitrary: c)
  case Nil
  then show ?case by simp
next
  case (Cons a anns)
  show ?case
  proof (cases "anns = []")
    case True
    then show ?thesis by (simp add: draw_annotation_eq)
  next
    case False
    from Cons.IH [OF False, of "draw_annotation h a c"] False show ?thesis
      by (simp add: draw_annotation_eq)
  qed
qed

lemma clearRect_whole:
  "clearRect (Fin 0) (Fin 0) (num_of_ulong (canvas_width c)) (num_of_ulong (canvas_height c)) c
     = c\<lparr>layer := []\<rparr>"
  by (simp add: clearRect_def)

lemma drawAnnotations_eq:
  "drawAnnotations h s =
     s\<lparr>canvas := render_canvas h (annotations s) (currentAnnotation s) (canvas s)\<rparr>"
proof (cases "annotations s = []")
  case True
  then show ?thesis
    by (cases "currentAnnotation s")
      (simp_all add: drawAnnotations_def render_canvas_def rendered_def draw_current_eq
        clearRect_whole)
next
  case False
  then show ?thesis
    by (cases "currentAnnotation s")
      (simp_all add: drawAnnotations_def render_canvas_def rendered_def draw_current_eq
        draw_all_eq clearRect_whole)
qed

lemma render_canvas_simps [simp]:
  "canvas_width (render_canvas h anns cur c) = canvas_width c"
  "canvas_height (render_canvas h anns cur c) = canvas_height c"
  "cursor (render_canvas h anns cur c) = cursor c"
  "lineDash (render_canvas h anns cur c) = lineDash c"
  "font (render_canvas h anns cur c) = (if anns = [] then font c else js ''14px Arial'')"
  "layer (render_canvas h anns cur c) = rendered h (lineDash c) (font c) anns cur"
  by (simp_all add: render_canvas_def Let_def)

lemma render_canvas_idem:
  "render_canvas h anns cur (render_canvas h anns cur c) = render_canvas h anns cur c"
  by (cases "anns = []"; cases cur) (simp_all add: render_canvas_def rendered_def)

lemma drawAnnotations_simps [simp]:
  "isActive (drawAnnotations h s) = isActive s"
  "screenshot (drawAnnotations h s) = screenshot s"
  "annotations (drawAnnotations h s) = annotations s"
  "currentAnnotation (drawAnnotations h s) = currentAnnotation s"
  "isAddingAnnotation (drawAnnotations h s) = isAddingAnnotation s"
  "pendingText (drawAnnotations h s) = pendingText s"
  "statusText (drawAnnotations h s) = statusText s"
  "inputValue (drawAnnotations h s) = inputValue s"
  "attached (drawAnnotations h s) = attached s"
  "canvas (drawAnnotations h s) = render_canvas h (annotations s) (currentAnnotation s) (canvas s)"
  by (simp_all add: drawAnnotations_eq)

lemma length_rendered:
  "length (rendered h dash f anns cur) =
     6 * length anns + (case cur of None \<Rightarrow> 0 | Some a \<Rightarrow> 2)"
proof -
  have "length (concat (map (annotation_shapes h dash) anns)) = 6 * length anns"
    by (induction anns) (simp_all add: annotation_shapes_def)
  then show ?thesis
    by (simp add: rendered_def current_shapes_def split: option.split)
qed

lemma rendered_font:
  "rendered h dash (if anns = [] then f else js ''14px Arial'') anns cur = rendered h dash f anns cur"
  by (simp add: rendered_def)

lemma line_angle_zero_sign:
  "line_angle h (a\<lparr>ann_y := Fin 0, pointer_y := NZero\<rparr>) =
     Math_atan2 h NZero (js_sub (pointer_x a) (ann_x a))"
  "line_angle h (a\<lparr>ann_y := Fin 0, pointer_y := Fin 0\<rparr>) =
     Math_atan2 h (Fin 0) (js_sub (pointer_x a) (ann_x a))"
  by (simp_all add: line_angle_def js_sub_def)

section \<open>The handlers, case by case\<close>

lemma idle_click: "\<not> isAddingAnnotation s \<Longrightarrow> canvas_click h k e s = s"
  by (simp add: canvas_click_def)

lemma first_click:
  assumes "isAddingAnnotation s" "currentAnnotation s = None"
  shows "canvas_click h k e s =
           s\<lparr>currentAnnotation :=
                Some \<lparr>ann_id = int_toString (now k), ann_text = pendingText s,
                      ann_x = event_x e s, ann_y = event_y e s,
                      pointer_x = event_x e s, pointer_y = event_y e s,
                      timestamp = isoNow k\<rparr>,
              statusText := js ''Click where to point the arrow''\<rparr>"
  using assms by (simp add: canvas_click_def Let_def)

lemma second_click:
  assumes "isAddingAnnotation s" "currentAnnotation s = Some a"
  shows "canvas_click h k e s =
           s\<lparr>annotations := annotations s @ [a\<lparr>pointer_x := event_x e s, pointer_y := event_y e s\<rparr>],
             currentAnnotation := None, isAddingAnnotation := False,
             statusText := nat_toString (Suc (length (annotations s))) @ js '' annotations'',
             inputValue := [],
             canvas := render_canvas h
                (annotations s @ [a\<lparr>pointer_x := event_x e s, pointer_y := event_y e s\<rparr>]) None
                ((canvas s)\<lparr>cursor := js ''default''\<rparr>)\<rparr>"
  using assms by (simp add: canvas_click_def Let_def drawAnnotations_eq)

lemma idle_mousemove: "currentAnnotation s = None \<Longrightarrow> canvas_mousemove h e s = s"
  by (simp add: canvas_mousemove_def)

lemma mousemove_simps [simp]:
  "isAddingAnnotation (canvas_mousemove h e s) = isAddingAnnotation s"
  "currentAnnotation (canvas_mousemove h e s) = currentAnnotation s"
  "pendingText (canvas_mousemove h e s) = pendingText s"
  "annotations (canvas_mousemove h e s) = annotations s"
  "attached (canvas_mousemove h e s) = attached s"
  "lineDash (canvas (canvas_mousemove h e s)) =
     (if currentAnnotation s = None \<or> \<not> isAddingAnnotation s then lineDash (canvas s) else [])"
  "font (canvas (canvas_mousemove h e s)) =
     (if currentAnnotation s = None \<or> \<not> isAddingAnnotation s \<or> annotations s = []
      then font (canvas s) else js ''14px Arial'')"
  by (auto simp: canvas_mousemove_def Let_def beginPath_def moveTo_def lineTo_def stroke_def
      split: option.split)

lemma mousemove_size [simp]:
  "canvas_width (canvas (canvas_mousemove h m s)) = canvas_width (canvas s)"
  "canvas_height (canvas (canvas_mousemove h m s)) = canvas_height (canvas s)"
  by (simp_all add: canvas_mousemove_def Let_def beginPath_def moveTo_def lineTo_def stroke_def
      split: option.split)

lemma trim_eq_Nil_iff: "trim t = [] \<longleftrightarrow> (\<forall>c\<in>set t. is_white_space c)"
proof
  assume "trim t = []"
  then have 1: "dropWhile is_white_space (rev (dropWhile is_white_space t)) = []"
    by (simp add: trim_def)
  show "\<forall>c\<in>set t. is_white_space c"
  proof (cases "dropWhile is_white_space t")
    case Nil
    then show ?thesis by (simp add: dropWhile_eq_Nil_conv)
  next
    case (Cons c cs)
    then have "\<not> is_white_space c" using hd_dropWhile [of is_white_space t] by simp
    moreover have "is_white_space c" using 1 Cons by (simp add: dropWhile_eq_Nil_conv)
    ultimately show ?thesis by simp
  qed
next
  assume "\<forall>c\<in>set t. is_white_space c"
  then show "trim t = []" by (auto simp: trim_def dest: set_dropWhileD)
qed

lemma start_ok:
  assumes "trim (inputValue s) \<noteq> []"
  shows "startAddingAnnotation s =
           Inr (s\<lparr>pendingText := trim (inputValue s), isAddingAnnotation := True,
                  canvas := (canvas s)\<lparr>cursor := js ''crosshair''\<rparr>,
                  statusText := js ''Click where to place the text''\<rparr>)"
  using assms by (simp add: startAddingAnnotation_def Let_def)

lemma start_empty:
  assumes "trim (inputValue s) = []"
  shows "startAddingAnnotation s = Inl EmptyTextError"
  using assms by (simp add: startAddingAnnotation_def)

lemma cleanup_simps [simp]:
  "isAddingAnnotation (cleanup s) = False" "currentAnnotation (cleanup s) = None"
  "pendingText (cleanup s) = []" "annotations (cleanup s) = []"
  "screenshot (cleanup s) = None" "isActive (cleanup s) = False" "attached (cleanup s) = False"
  "canvas (cleanup s) = canvas s" "inputValue (cleanup s) = inputValue s"
  by (simp_all add: cleanup_def)

lemma startAnnotationMode_simps [simp]:
  "isAddingAnnotation (startAnnotationMode h shot s) = isAddingAnnotation s"
  "currentAnnotation (startAnnotationMode h shot s) = currentAnnotation s"
  "pendingText (startAnnotationMode h shot s) = pendingText s"
  "annotations (startAnnotationMode h shot s) =
     (case shot_annotations shot of None \<Rightarrow> [] | Some anns \<Rightarrow> anns)"
  "attached (startAnnotationMode h shot s) = True"
  "canvas (startAnnotationMode h shot s) =
     render_canvas h (case shot_annotations shot of None \<Rightarrow> [] | Some anns \<Rightarrow> anns)
       (currentAnnotation s) (new_canvas (displayWidth shot) (displayHeight shot))"
  by (simp_all add: startAnnotationMode_def Let_def)

lemma dispatch_simps:
  "attached s \<Longrightarrow> dispatch h s (TypeText t) = s\<lparr>inputValue := t\<rparr>"
  "attached s \<Longrightarrow> dispatch h s AddButton =
     (case startAddingAnnotation s of Inl err \<Rightarrow> s | Inr s' \<Rightarrow> s')"
  "attached s \<Longrightarrow> dispatch h s (CanvasClick k e) = canvas_click h k e s"
  "attached s \<Longrightarrow> dispatch h s (CanvasMove e) = canvas_mousemove h e s"
  "attached s \<Longrightarrow> dispatch h s CancelButton = cancel s"
  "attached s \<Longrightarrow> dispatch h s SaveButton = saveAndExit s"
  "dispatch h s CleanupTimer = cleanup s"
  "dispatch h s (StartAnnotation shot) = startAnnotationMode h shot s"
  by (simp_all add: dispatch_def)

lemma dispatch_detached:
  "\<not> attached s \<Longrightarrow> from_overlay_element ev \<Longrightarrow> dispatch h s ev = s"
  by (simp add: dispatch_def)

lemma run_simps [simp]:
  "run h s [] = s"
  "run h s (ev # evs) = run h (dispatch h s ev) evs"
  "run h s (evs @ evs') = run h (run h s evs) evs'"
  by (simp_all add: run_def)

text \<open>One whole placement, from any state with no annotation in progress.\<close>

lemma placement_run:
  fixes k1 :: clock and e1 e2 :: mouse_event
  assumes "attached s" "currentAnnotation s = None" "trim t \<noteq> []"
  defines "r \<equiv> committed_record t k1 e1 e2 s"
  shows "run h s [TypeText t, AddButton, CanvasClick k1 e1, CanvasClick k2 e2] =
           s\<lparr>annotations := annotations s @ [r],
             currentAnnotation := None, isAddingAnnotation := False, pendingText := trim t,
             statusText := nat_toString (Suc (length (annotations s))) @ js '' annotations'',
             inputValue := [],
             canvas := render_canvas h (annotations s @ [r]) None
                ((canvas s)\<lparr>cursor := js ''default''\<rparr>)\<rparr>"
proof -
  define s1 where "s1 = (s\<lparr>inputValue := t\<rparr>)\<lparr>pendingText := trim t, isAddingAnnotation := True,
                  canvas := (canvas s)\<lparr>cursor := js ''crosshair''\<rparr>,
                  statusText := js ''Click where to place the text''\<rparr>"
  have d1: "dispatch h (dispatch h s (TypeText t)) AddButton = s1"
    using assms(1,3) start_ok [of "s\<lparr>inputValue := t\<rparr>"] by (simp add: dispatch_simps s1_def)
  have w1: "isAddingAnnotation s1" "currentAnnotation s1 = None" "attached s1"
    using assms(1,2) by (simp_all add: s1_def)
  define s2 where "s2 = canvas_click h k1 e1 s1"
  have xy: "event_x e1 s1 = event_x e1 s" "event_y e1 s1 = event_y e1 s"
    "event_x e2 s2 = event_x e2 s" "event_y e2 s2 = event_y e2 s"
    by (simp_all add: s2_def first_click [OF w1(1,2)] event_x_def event_y_def) (simp_all add: s1_def)
  have s2: "isAddingAnnotation s2" "attached s2"
    "currentAnnotation s2 = Some \<lparr>ann_id = int_toString (now k1), ann_text = trim t,
            ann_x = event_x e1 s, ann_y = event_y e1 s,
            pointer_x = event_x e1 s, pointer_y = event_y e1 s, timestamp = isoNow k1\<rparr>"
    unfolding s2_def first_click [OF w1(1,2)] xy using w1 by (simp_all add: s1_def)
  have "run h s [TypeText t, AddButton, CanvasClick k1 e1, CanvasClick k2 e2] = canvas_click h k2 e2 s2"
    using w1(3) s2(2) by (simp add: d1 dispatch_simps flip: s2_def)
  also have "\<dots> = s\<lparr>annotations := annotations s @ [r],
             currentAnnotation := None, isAddingAnnotation := False, pendingText := trim t,
             statusText := nat_toString (Suc (length (annotations s))) @ js '' annotations'',
             inputValue := [],
             canvas := render_canvas h (annotations s @ [r]) None
                ((canvas s)\<lparr>cursor := js ''default''\<rparr>)\<rparr>"
    unfolding second_click [OF s2(1,3)] xy
    by (simp add: s2_def first_click [OF w1(1,2)] r_def committed_record_def) (simp add: s1_def)
  finally show ?thesis .
qed

text \<open>Mouse moves between the clicks leave the placement as it is.\<close>

lemma moves_run:
  "attached s \<Longrightarrow>
     attached (run h s (map CanvasMove ms))
     \<and> isAddingAnnotation (run h s (map CanvasMove ms)) = isAddingAnnotation s
     \<and> currentAnnotation (run h s (map CanvasMove ms)) = currentAnnotation s
     \<and> annotations (run h s (map CanvasMove ms)) = annotations s
     \<and> pendingText (run h s (map CanvasMove ms)) = pendingText s
     \<and> canvas_width (canvas (run h s (map CanvasMove ms))) = canvas_width (canvas s)
     \<and> canvas_height (canvas (run h s (map CanvasMove ms))) = canvas_height (canvas s)"
proof (induction ms arbitrary: s)
  case Nil
  then show ?case by simp
next
  case (Cons m ms)
  from Cons.prems have "attached (canvas_mousemove h m s)" by simp
  from Cons.IH [OF this] Cons.prems show ?case by (simp add: dispatch_simps)
qed

section \<open>Facts kept by every event\<close>

lemma texts_nonempty_dispatch:
  assumes "texts_nonempty s"
  shows "texts_nonempty (dispatch h s ev)"
proof (cases "from_overlay_element ev \<and> \<not> attached s")
  case True
  with assms show ?thesis by (simp add: dispatch_def)
next
  case live: False
  show ?thesis
  proof (cases ev)
    case (TypeText t)
    with assms live show ?thesis by (simp add: dispatch_simps texts_nonempty_def)
  next
    case AddButton
    show ?thesis
    proof (cases "trim (inputValue s) = []")
      case True
      with assms AddButton live show ?thesis by (simp add: dispatch_simps start_empty)
    next
      case False
      with assms AddButton live show ?thesis
        by (simp add: dispatch_simps start_ok texts_nonempty_def)
    qed
  next
    case (CanvasClick k e)
    show ?thesis
    proof (cases "isAddingAnnotation s")
      case False
      with assms CanvasClick live show ?thesis by (simp add: dispatch_simps idle_click)
    next
      case True
      show ?thesis
      proof (cases "currentAnnotation s")
        case None
        from first_click [OF True None] assms True CanvasClick live show ?thesis
          by (simp add: dispatch_simps texts_nonempty_def)
      next
        case (Some a)
        from second_click [OF True Some] CanvasClick live show ?thesis
          by (simp add: dispatch_simps texts_nonempty_def)
      qed
    qed
  next
    case (CanvasMove e)
    with assms live show ?thesis by (simp add: dispatch_simps texts_nonempty_def)
  next
    case CancelButton
    with live show ?thesis by (simp add: dispatch_simps cancel_def texts_nonempty_def)
  next
    case SaveButton
    with assms live show ?thesis by (simp add: dispatch_simps saveAndExit_def texts_nonempty_def)
  next
    case CleanupTimer
    then show ?thesis by (simp add: dispatch_simps texts_nonempty_def)
  next
    case (StartAnnotation shot)
    with assms show ?thesis by (simp add: dispatch_simps texts_nonempty_def)
  qed
qed

lemma canvas_settled_dispatch:
  assumes "canvas_settled s"
  shows "canvas_settled (dispatch h s ev)"
proof (cases "from_overlay_element ev \<and> \<not> attached s")
  case True
  with assms show ?thesis by (simp add: dispatch_def)
next
  case live: False
  show ?thesis
  proof (cases ev)
    case (TypeText t)
    with assms live show ?thesis by (simp add: dispatch_simps canvas_settled_def)
  next
    case AddButton
    show ?thesis
    proof (cases "trim (inputValue s) = []")
      case True
      with assms AddButton live show ?thesis by (simp add: dispatch_simps start_empty)
    next
      case False
      with assms AddButton live show ?thesis
        by (simp add: dispatch_simps start_ok canvas_settled_def)
    qed
  next
    case (CanvasClick k e)
    show ?thesis
    proof (cases "isAddingAnnotation s")
      case False
      with assms CanvasClick live show ?thesis by (simp add: dispatch_simps idle_click)
    next
      case True
      show ?thesis
      proof (cases "currentAnnotation s")
        case None
        from first_click [OF True None] assms CanvasClick live show ?thesis
          by (simp add: dispatch_simps canvas_settled_def)
      next
        case (Some a)
        from second_click [OF True Some] assms CanvasClick live show ?thesis
          by (simp add: dispatch_simps canvas_settled_def)
      qed
    qed
  next
    case (CanvasMove e)
    with assms live show ?thesis by (auto simp: dispatch_simps canvas_settled_def)
  next
    case CancelButton
    with live show ?thesis by (simp add: dispatch_simps cancel_def canvas_settled_def)
  next
    case SaveButton
    with assms live show ?thesis by (simp add: dispatch_simps saveAndExit_def canvas_settled_def)
  next
    case CleanupTimer
    then show ?thesis by (simp add: dispatch_simps canvas_settled_def)
  next
    case (StartAnnotation shot)
    then show ?thesis by (simp add: dispatch_simps canvas_settled_def new_canvas_def)
  qed
qed

lemma texts_nonempty_run: "texts_nonempty s \<Longrightarrow> texts_nonempty (run h s evs)"
  by (induction evs arbitrary: s) (simp_all add: texts_nonempty_dispatch)

lemma canvas_settled_run: "canvas_settled s \<Longrightarrow> canvas_settled (run h s evs)"
  by (induction evs arbitrary: s) (simp_all add: canvas_settled_dispatch)

lemma initial_overlay_facts: "texts_nonempty initial_overlay" "canvas_settled initial_overlay"
  by (simp_all add: texts_nonempty_def canvas_settled_def initial_overlay_def)

section \<open>Decimal rendering is injective\<close>

lemma unat_digit_char: "d < 10 \<Longrightarrow> unat (digit_char d) = 48 + d"
  unfolding digit_char_def by (rule of_nat_inverse [OF refl]) simp

lemma digit_char_inj:
  assumes "d < 10" "d' < 10" "digit_char d = digit_char d'"
  shows "d = d'"
proof -
  have "48 + d = unat (digit_char d)" using assms(1) by (simp only: unat_digit_char)
  also have "\<dots> = unat (digit_char d')" by (simp only: assms(3))
  also have "\<dots> = 48 + d'" using assms(2) by (simp only: unat_digit_char)
  finally show ?thesis by simp
qed

lemma nat_toString_not_Nil: "nat_toString n \<noteq> []"
  by (subst nat_toString.simps) simp

lemma nat_toString_inj: "nat_toString m = nat_toString n \<Longrightarrow> m = n"
proof (induction m arbitrary: n rule: nat_toString.induct)
  case (1 m)
  show ?case
  proof (cases "m < 10")
    case m: True
    show ?thesis
    proof (cases "n < 10")
      case True
      with m "1.prems" show ?thesis
        by (simp add: nat_toString.simps [of m] nat_toString.simps [of n] digit_char_inj)
    next
      case False
      with m "1.prems" show ?thesis
        by (simp add: nat_toString.simps [of m] nat_toString.simps [of n]
            nat_toString_not_Nil [symmetric])
    qed
  next
    case m: False
    show ?thesis
    proof (cases "n < 10")
      case True
      with m "1.prems" show ?thesis
        by (simp add: nat_toString.simps [of m] nat_toString.simps [of n] nat_toString_not_Nil)
    next
      case False
      with m "1.prems" have eq: "nat_toString (m div 10) = nat_toString (n div 10)"
        and d: "digit_char (m mod 10) = digit_char (n mod 10)"
        by (simp_all add: nat_toString.simps [of m] nat_toString.simps [of n])
      from "1.IH" [OF m eq] have "m div 10 = n div 10" .
      moreover from d have "m mod 10 = n mod 10" by (simp add: digit_char_inj)
      ultimately show ?thesis by (metis div_mult_mod_eq)
    qed
  qed
qed

lemma nat_toString_no_minus: "c \<in> set (nat_toString n) \<Longrightarrow> c \<noteq> 45"
proof (induction n rule: nat_toString.induct)
  case (1 n)
  have dc: "digit_char d \<noteq> 45" if "d < 10" for d
  proof
    assume "digit_char d = 45"
    then have "unat (digit_char d) = 45" by (simp only: unat_bintrunc) simp
    with unat_digit_char [OF that] show False by simp
  qed
  from 1 show ?case
    by (subst (asm) (2) nat_toString.simps) (auto simp: dc split: if_splits)
qed

lemma int_toString_inj: "int_toString i = int_toString j \<Longrightarrow> i = j"
proof -
  assume eq: "int_toString i = int_toString j"
  have hd: "nat_toString n \<noteq> 45 # cs" for n cs
    using nat_toString_no_minus [of 45 n] by (cases "nat_toString n") auto
  show ?thesis
  proof (cases "i < 0")
    case i: True
    show ?thesis
    proof (cases "j < 0")
      case True
      with i eq have "nat (- i) = nat (- j)" by (simp add: int_toString_def nat_toString_inj)
      with i True show ?thesis by simp
    next
      case False
      with i eq hd [of "nat j"] show ?thesis by (simp add: int_toString_def) metis
    qed
  next
    case i: False
    show ?thesis
    proof (cases "j < 0")
      case True
      with i eq hd [of "nat i"] show ?thesis by (simp add: int_toString_def)
    next
      case False
      with i eq have "nat i = nat j" by (simp add: int_toString_def nat_toString_inj)
      with i False show ?thesis by simp
    qed
  qed
qed

lemma digit_value_digit_char: "d < 10 \<Longrightarrow> digit_value (digit_char d) = d"
  by (simp add: digit_value_def unat_digit_char)

lemma parse_nat_snoc: "parse_nat (cs @ [c]) = 10 * parse_nat cs + digit_value c"
  by (simp add: parse_nat_def)

lemma parse_nat_toString: "parse_nat (nat_toString n) = n"
proof (induction n rule: nat_toString.induct)
  case (1 n)
  show ?case
  proof (cases "n < 10")
    case True
    then show ?thesis
      by (simp add: nat_toString.simps [of n] parse_nat_def digit_value_digit_char)
  next
    case False
    with "1.IH" show ?thesis
      by (simp add: nat_toString.simps [of n] parse_nat_snoc digit_value_digit_char)
  qed
qed

lemma parse_int_toString: "parse_int (int_toString i) = i"
proof (cases "i < 0")
  case True
  then show ?thesis by (simp add: int_toString_def parse_int_def parse_nat_toString)
next
  case False
  obtain c cs where cs: "nat_toString (nat i) = c # cs"
    using nat_toString_not_Nil [of "nat i"] by (cases "nat_toString (nat i)") auto
  with nat_toString_no_minus [of c "nat i"] have "c \<noteq> 45" by simp
  with False cs parse_nat_toString [of "nat i"] show ?thesis
    by (simp add: int_toString_def parse_int_def)
qed
section \<open>The worked session\<close>

lemma overlay0_canvas: "canvas overlay0 = new_canvas 1728 972"
  by (simp add: overlay0_def startAnnotationMode_def drawAnnotations_def Let_def shot0_def
      clearRect_def new_canvas_def initial_overlay_def)

lemma num_of_ulong_numeral [simp]: "num_of_ulong 1728 = Fin 1728" "num_of_ulong 972 = Fin 972"
  by (simp_all add: num_of_ulong_def)


lemma round_1728_1075: "round_binary64 (1728 / 1075) = Fin (7239274563810435 / 4503599627370496)"
  by (subst round_binary64_normal [of 0]) (simp_all add: round_ties_even_def Let_def)

lemma round_243_151: "round_binary64 (243 / 151) = Fin (3623757316063015 / 2251799813685248)"
  by (subst round_binary64_normal [of 0]) (simp_all add: round_ties_even_def Let_def)

lemma round_back_1728:
  "round_binary64 (7782220156096217625 / 4503599627370496) = Fin (7599824371187713 / 4398046511104)"
  by (subst round_binary64_normal [of 10]) (simp_all add: round_ties_even_def Let_def)

lemma overlay0_eq:
  "overlay0 =
     \<lparr>isActive = True, screenshot = Some shot0, annotations = [], currentAnnotation = None,
      isAddingAnnotation = False, pendingText = [], canvas = new_canvas 1728 972,
      statusText = js ''0 annotations'', inputValue = [], attached = True\<rparr>"
  by (simp add: overlay0_def startAnnotationMode_def Let_def shot0_def initial_overlay_def
      drawAnnotations_eq render_canvas_def rendered_def new_canvas_def nat_toString.simps
      digit_char_def js_def)

lemma trim_bug_here: "trim bug_here = bug_here" "bug_here \<noteq> []"
  by (simp_all add: trim_def bug_here_def js_def is_white_space_def)

lemma session_started_eq:
  "session_started =
     overlay0\<lparr>inputValue := bug_here, pendingText := bug_here, isAddingAnnotation := True,
       statusText := js ''Click where to place the text''\<rparr>"
  by (simp add: session_started_def dispatch_simps overlay0_eq startAddingAnnotation_def
      trim_bug_here new_canvas_def)

lemma full_box_xy:
  "canvas_width (canvas s) = 1728 \<Longrightarrow> event_x (mouse_at 120 py full_box) s = Fin 120"
  "canvas_height (canvas s) = 972 \<Longrightarrow> event_y (mouse_at px 80 full_box) s = Fin 80"
  "canvas_width (canvas s) = 1728 \<Longrightarrow> event_x (mouse_at 300 py full_box) s = Fin 300"
  "canvas_height (canvas s) = 972 \<Longrightarrow> event_y (mouse_at px 200 full_box) s = Fin 200"
  by (simp_all add: event_x_def event_y_def mouse_at_def full_box_def box_def js_sub_Fin)

lemma clock_strings:
  "int_toString 1700000000000 = js ''1700000000000''"
  "int_toString 1700000002500 = js ''1700000002500''"
  by (simp_all add: int_toString_def nat_toString.simps digit_char_def js_def)

lemma session_labelled_eq:
  "session_labelled =
     session_started\<lparr>currentAnnotation := Some (bug_record\<lparr>pointer_x := Fin 120, pointer_y := Fin 80\<rparr>),
       statusText := js ''Click where to point the arrow''\<rparr>"
  by (simp add: session_labelled_def session_started_eq overlay0_eq dispatch_simps first_click
      full_box_xy new_canvas_def clock0_def clock_strings bug_record_def)

lemma session_committed_eq:
  "session_committed =
     overlay0\<lparr>annotations := [bug_record], pendingText := bug_here,
       statusText := js ''1 annotations'',
       canvas := render_canvas host0 [bug_record] None ((new_canvas 1728 972)\<lparr>cursor := js ''default''\<rparr>)\<rparr>"
  by (simp add: session_committed_def session_labelled_eq session_started_eq overlay0_eq
      dispatch_simps second_click full_box_xy new_canvas_def bug_record_def
      nat_toString.simps digit_char_def js_def)

lemma empty_box_xy:
  "canvas_width (canvas s) = 1728 \<Longrightarrow> event_x (mouse_at 10 py empty_box) s = PInf"
  "canvas_height (canvas s) = 972 \<Longrightarrow> event_y (mouse_at px 10 empty_box) s = PInf"
  "canvas_width (canvas s) = 1728 \<Longrightarrow> event_x (mouse_at 0 py empty_box) s = NaN"
  "canvas_height (canvas s) = 972 \<Longrightarrow> event_y (mouse_at px 0 empty_box) s = NaN"
  by (simp_all add: event_x_def event_y_def mouse_at_def empty_box_def box_def js_sub_Fin
      js_sign_def signed_inf_def)

lemma session_labelled_run:
  "run host0 initial_overlay
     [StartAnnotation shot0, TypeText bug_here, AddButton,
      CanvasClick clock0 (mouse_at 120 80 full_box)] = session_labelled"
  by (simp add: session_labelled_def session_started_def dispatch_simps overlay0_def)

lemma trim_other: "trim (js '' Other '') = js ''Other''" "js ''Other'' \<noteq> []"
  by (simp_all add: trim_def js_def is_white_space_def)

lemma round_two_pi:
  "round_binary64 (884279719003555 / 140737488355328) = Fin (884279719003555 / 140737488355328)"
  by (subst round_binary64_normal [of 2]) (simp_all add: round_ties_even_def Let_def)

lemma committed_layer:
  "layer (canvas session_committed) =
     [Stroke [MoveTo (Fin 120) (Fin 80), LineTo (Fin 300) (Fin 200)] (RGBA 255 0 0 1) (Fin 2) [],
      Stroke [MoveTo (Fin 300) (Fin 200), LineTo (Fin 288) (Fin 200),
              MoveTo (Fin 300) (Fin 200), LineTo (Fin 288) (Fin 200)] (RGBA 255 0 0 1) (Fin 2) [],
      Fill [Arc (Fin 300) (Fin 200) (Fin 4) (Fin 0) (Fin (884279719003555 / 140737488355328))]
        (RGBA 255 0 0 1),
      FillRect (Fin 114) (Fin 58) (Fin 68) (Fin 28) (RGBA 255 255 255 (19 / 20)),
      StrokeRect (Fin 114) (Fin 58) (Fin 68) (Fin 28) (RGBA 255 0 0 1) (Fin 1) [],
      FillText bug_here (Fin 120) (Fin 76) (js ''14px Arial'') (RGBA 0 0 0 1)]"
  by (simp add: session_committed_eq overlay0_eq rendered_def annotation_shapes_def barb_def
      line_angle_def host0_def bug_record_def new_canvas_def js_sub_Fin Math_PI_def
      round_two_pi)
    (simp add: bug_here_def js_def)

lemma session_second_eq:
  "session_second =
     session_committed\<lparr>inputValue := js ''Second'', pendingText := js ''Second'',
       isAddingAnnotation := True,
       canvas := (canvas session_committed)\<lparr>cursor := js ''crosshair''\<rparr>,
       statusText := js ''Click where to place the text''\<rparr>"
  by (simp add: session_second_def session_committed_eq overlay0_eq dispatch_simps
      startAddingAnnotation_def Let_def trim_def js_def is_white_space_def)

lemma session_second_labelled_eq:
  "session_second_labelled =
     session_second\<lparr>currentAnnotation := Some second_record,
       statusText := js ''Click where to point the arrow''\<rparr>"
  by (simp add: session_second_labelled_def session_second_eq session_committed_eq overlay0_eq
      dispatch_simps first_click full_box_xy new_canvas_def clock1_def clock_strings
      second_record_def)

lemma session_hovering_facts:
  "attached session_second_labelled" "attached session_hovering"
  "annotations session_second_labelled = [bug_record]"
  "annotations session_hovering = [bug_record]"
  "currentAnnotation session_second_labelled = Some second_record"
  "currentAnnotation session_hovering = Some second_record"
  by (simp_all add: session_hovering_def session_second_labelled_eq session_second_eq
      session_committed_eq overlay0_eq dispatch_simps)

lemma session_second_run:
  "run host0 initial_overlay
     ([StartAnnotation shot0] @ placement_events placement0
      @ [TypeText (js ''Second''), AddButton, CanvasClick clock1 (mouse_at 300 80 full_box)])
     = session_second_labelled"
  "run host0 initial_overlay
     ([StartAnnotation shot0] @ placement_events placement0
      @ [TypeText (js ''Second''), AddButton, CanvasClick clock1 (mouse_at 300 80 full_box),
         CanvasMove (mouse_at 120 200 full_box)])
     = session_hovering"
  by (simp_all add: session_hovering_def session_second_labelled_def session_second_def
      session_committed_def session_labelled_def session_started_def overlay0_def
      placement_events_def placement0_def dispatch_simps)

lemma second_labelled_layer:
  "layer (canvas session_second_labelled) = layer (canvas session_committed)"
  by (simp add: session_second_labelled_eq session_second_eq)

lemma hovering_layer:
  "length (layer (canvas session_hovering)) = 9"
  by (simp add: session_hovering_def dispatch_simps canvas_mousemove_def Let_def
      session_second_labelled_eq session_second_eq session_committed_eq overlay0_eq
      beginPath_def moveTo_def lineTo_def stroke_def rendered_def annotation_shapes_def
      current_shapes_def)

lemma second_rendered:
  "rendered host0 [] (js ''10px sans-serif'') [bug_record] (Some second_record) =
     layer (canvas session_committed)
     @ [FillRect (Fin 296) (Fin 60) (Fin 50) (Fin 20) (RGBA 255 255 0 (4 / 5)),
        FillText (js ''Second'') (Fin 300) (Fin 76) (js ''14px Arial'') (RGBA 0 0 0 1)]"
  by (simp add: session_committed_eq overlay0_eq rendered_def new_canvas_def current_shapes_def
      second_record_def host0_def js_sub_Fin)
    (simp add: js_def)
section \<open>Commit\<close>

text \<open>
  C1: in state AwaitingTargetClick a click appends exactly one record, the annotation in
  progress with the position of the click, mapped to canvas coordinates, as its target,
  and the state is Idle afterwards. Followed from the start of the placement: from any
  state of a mounted overlay with no annotation in progress, typing a text that is not
  blank, pressing the button and clicking twice, with any mouse moves between the two
  clicks, appends exactly one record, with the trimmed text, the mapped position of the
  first click as label position and that of the second click as target position.
\<close>

theorem commit_atomicity:
  "(AwaitingTargetClick s \<longrightarrow>
      (\<exists>a. currentAnnotation s = Some a
           \<and> annotations (canvas_click h k e s) =
               annotations s @ [a\<lparr>pointer_x := event_x e s, pointer_y := event_y e s\<rparr>])
      \<and> length (annotations (canvas_click h k e s)) = length (annotations s) + 1
      \<and> Idle (canvas_click h k e s))
   \<and> (attached s \<and> currentAnnotation s = None \<and> trim t \<noteq> [] \<longrightarrow>
      annotations (run h s ([TypeText t, AddButton, CanvasClick k1 e1] @ map CanvasMove ms
                            @ [CanvasClick k2 e2])) =
        annotations s @
          [\<lparr>ann_id = int_toString (now k1), ann_text = trim t,
            ann_x = event_x e1 s, ann_y = event_y e1 s,
            pointer_x = event_x e2 s, pointer_y = event_y e2 s, timestamp = isoNow k1\<rparr>]
      \<and> Idle (run h s ([TypeText t, AddButton, CanvasClick k1 e1] @ map CanvasMove ms
                       @ [CanvasClick k2 e2])))"
proof (intro conjI impI)
  assume "AwaitingTargetClick s"
  then obtain a where a: "isAddingAnnotation s" "currentAnnotation s = Some a"
    by (auto simp: AwaitingTargetClick_def)
  show "\<exists>a. currentAnnotation s = Some a
           \<and> annotations (canvas_click h k e s) =
               annotations s @ [a\<lparr>pointer_x := event_x e s, pointer_y := event_y e s\<rparr>]"
    and "length (annotations (canvas_click h k e s)) = length (annotations s) + 1"
    and "Idle (canvas_click h k e s)"
    using a by (simp_all add: second_click [OF a] Idle_def)
next
  assume "attached s \<and> currentAnnotation s = None \<and> trim t \<noteq> []"
  then have A: "attached s" "currentAnnotation s = None" "trim t \<noteq> []" by simp_all
  define s2 where "s2 = run h s [TypeText t, AddButton, CanvasClick k1 e1]"
  have s2: "attached s2" "isAddingAnnotation s2" "annotations s2 = annotations s"
    "currentAnnotation s2 = Some \<lparr>ann_id = int_toString (now k1), ann_text = trim t,
            ann_x = event_x e1 s, ann_y = event_y e1 s,
            pointer_x = event_x e1 s, pointer_y = event_y e1 s, timestamp = isoNow k1\<rparr>"
    "canvas_width (canvas s2) = canvas_width (canvas s)"
    "canvas_height (canvas s2) = canvas_height (canvas s)"
    using A unfolding s2_def
    by (simp_all add: dispatch_simps start_ok first_click event_x_def event_y_def)
  define s3 where "s3 = run h s2 (map CanvasMove ms)"
  from moves_run [OF s2(1), of h ms] s2
  have s3: "attached s3" "isAddingAnnotation s3" "annotations s3 = annotations s"
    "currentAnnotation s3 = Some \<lparr>ann_id = int_toString (now k1), ann_text = trim t,
            ann_x = event_x e1 s, ann_y = event_y e1 s,
            pointer_x = event_x e1 s, pointer_y = event_y e1 s, timestamp = isoNow k1\<rparr>"
    "canvas_width (canvas s3) = canvas_width (canvas s)"
    "canvas_height (canvas s3) = canvas_height (canvas s)"
    by (simp_all add: s3_def)
  have xy: "event_x e2 s3 = event_x e2 s" "event_y e2 s3 = event_y e2 s"
    by (simp_all add: event_x_def event_y_def s3(5,6))
  have "run h s ([TypeText t, AddButton, CanvasClick k1 e1] @ map CanvasMove ms
                 @ [CanvasClick k2 e2]) = run h s3 [CanvasClick k2 e2]"
    unfolding s3_def s2_def by (simp only: run_simps(3))
  then have r: "run h s ([TypeText t, AddButton, CanvasClick k1 e1] @ map CanvasMove ms
                    @ [CanvasClick k2 e2]) = canvas_click h k2 e2 s3"
    using s3(1) by (simp only: run_simps(1,2) dispatch_simps)
  show "annotations (run h s ([TypeText t, AddButton, CanvasClick k1 e1] @ map CanvasMove ms
                            @ [CanvasClick k2 e2])) =
        annotations s @
          [\<lparr>ann_id = int_toString (now k1), ann_text = trim t,
            ann_x = event_x e1 s, ann_y = event_y e1 s,
            pointer_x = event_x e2 s, pointer_y = event_y e2 s, timestamp = isoNow k1\<rparr>]"
    and "Idle (run h s ([TypeText t, AddButton, CanvasClick k1 e1] @ map CanvasMove ms
                       @ [CanvasClick k2 e2]))"
    unfolding r by (simp_all add: second_click [OF s3(2,4)] s3(3) xy Idle_def)
qed

theorem commit_atomicity_witness:
  "AwaitingTargetClick session_labelled
   \<and> annotations (canvas_click host0 clock1 (mouse_at 300 200 full_box) session_labelled) = [bug_record]
   \<and> Idle (canvas_click host0 clock1 (mouse_at 300 200 full_box) session_labelled)
   \<and> attached overlay0 \<and> currentAnnotation overlay0 = None \<and> trim bug_here \<noteq> []
   \<and> annotations (run host0 overlay0
        ([TypeText bug_here, AddButton, CanvasClick clock0 (mouse_at 120 80 full_box)]
         @ map CanvasMove [mouse_at 200 150 full_box, mouse_at 300 200 full_box]
         @ [CanvasClick clock1 (mouse_at 300 200 full_box)])) = [bug_record]
   \<and> Idle (run host0 overlay0
        ([TypeText bug_here, AddButton, CanvasClick clock0 (mouse_at 120 80 full_box)]
         @ map CanvasMove [mouse_at 200 150 full_box, mouse_at 300 200 full_box]
         @ [CanvasClick clock1 (mouse_at 300 200 full_box)]))"
proof -
  have o: "attached overlay0" "currentAnnotation overlay0 = None" "annotations overlay0 = []"
    "canvas_width (canvas overlay0) = 1728" "canvas_height (canvas overlay0) = 972"
    by (simp_all add: overlay0_eq new_canvas_def)
  have l: "AwaitingTargetClick session_labelled" "annotations session_labelled = []"
    "currentAnnotation session_labelled = Some (bug_record\<lparr>pointer_x := Fin 120, pointer_y := Fin 80\<rparr>)"
    "canvas_width (canvas session_labelled) = 1728" "canvas_height (canvas session_labelled) = 972"
    by (simp_all add: AwaitingTargetClick_def session_labelled_eq session_started_eq overlay0_eq
        new_canvas_def)
  have r: "\<lparr>ann_id = int_toString (now clock0), ann_text = bug_here, ann_x = Fin 120, ann_y = Fin 80,
            pointer_x = Fin 300, pointer_y = Fin 200, timestamp = isoNow clock0\<rparr> = bug_record"
    "bug_record\<lparr>pointer_x := Fin 120, pointer_y := Fin 80\<rparr>\<lparr>pointer_x := Fin 300, pointer_y := Fin 200\<rparr>
       = bug_record"
    by (simp_all add: bug_record_def clock0_def clock_strings)
  from commit_atomicity [where s = session_labelled and h = host0 and k = clock1
      and e = "mouse_at 300 200 full_box"]
    commit_atomicity [where s = overlay0 and h = host0 and t = bug_here and ?k1.0 = clock0
      and ?e1.0 = "mouse_at 120 80 full_box" and ?k2.0 = clock1
      and ?e2.0 = "mouse_at 300 200 full_box"
      and ms = "[mouse_at 200 150 full_box, mouse_at 300 200 full_box]"]
  show ?thesis
    by (simp only: o l r trim_bug_here full_box_xy append_Nil simp_thms option.inject
        not_False_eq_True)
qed

section \<open>Coordinate mapping\<close>

text \<open>
  C2, as stated: the mapping computes \<open>(screenPos - origin) * (intrinsicSize / boxSize)\<close>
  exactly, so the bottom-right corner of the box maps to the intrinsic size. It does not:
  with the 1728 wide canvas laid out 1075 wide at left edge 100, the right edge
  \<open>clientX = 1175\<close> maps to \<open>1728 + 2^-42\<close>, because \<open>1728 / 1075\<close> is rounded to
  binary64 before it is multiplied.
\<close>

theorem mapping_not_exact:
  "event_x (mouse_at 1175 654 (box 100 50 1075 604)) overlay0 \<noteq> Fin ((1175 - 100) * (1728 / 1075))"
  by (simp add: event_x_def mouse_at_def box_def overlay0_canvas new_canvas_def js_sub_Fin
      round_1728_1075 round_back_1728)


text \<open>
  C2, amended: for a finite pointer position and a box of nonzero width and height the
  mapping computes, per axis, \<open>(screenPos - origin) * (intrinsicSize / boxSize)\<close> in
  binary64 arithmetic, each of the three operations rounded once to nearest and nothing
  else rounded. The top-left corner of the box maps to \<open>(0, 0)\<close> whenever the scale
  quotient is finite. The bottom-right corner maps to the intrinsic size whenever its
  offset from the origin is the box size and the scale quotient is a binary64 value.
  A layout box has no negative width or height; were one negative, the quotient of a
  canvas size of 0 and the zero of the top-left corner would be the negative zero.
\<close>

theorem coordinate_mapping:
  assumes "clientX e = Fin px" "clientY e = Fin py"
    and "boundingClientRect e = box l t w ht" "w \<noteq> 0" "ht \<noteq> 0"
    and "num_of_ulong (canvas_width (canvas s)) = Fin cw"
    and "num_of_ulong (canvas_height (canvas s)) = Fin ch"
  shows "event_x e s = js_mul (round_binary64 (px - l))
                         (if cw = 0 \<and> w < 0 then NZero else round_binary64 (cw / w))
    \<and> event_y e s = js_mul (round_binary64 (py - t))
                         (if ch = 0 \<and> ht < 0 then NZero else round_binary64 (ch / ht))
    \<and> (px = l \<and> is_finite (round_binary64 (cw / w)) \<longrightarrow> event_x e s = signed_zero (w < 0))
    \<and> (py = t \<and> is_finite (round_binary64 (ch / ht)) \<longrightarrow> event_y e s = signed_zero (ht < 0))
    \<and> (round_binary64 (px - l) = Fin w \<and> round_binary64 (cw / w) = Fin (cw / w)
          \<longrightarrow> event_x e s = Fin cw)
    \<and> (round_binary64 (py - t) = Fin ht \<and> round_binary64 (ch / ht) = Fin (ch / ht)
          \<longrightarrow> event_y e s = Fin ch)"
proof -
  have X: "event_x e s = js_mul (round_binary64 (px - l))
                         (if cw = 0 \<and> w < 0 then NZero else round_binary64 (cw / w))"
    using assms by (simp add: event_x_def box_def js_sub_Fin)
  have Y: "event_y e s = js_mul (round_binary64 (py - t))
                         (if ch = 0 \<and> ht < 0 then NZero else round_binary64 (ch / ht))"
    using assms by (simp add: event_y_def box_def js_sub_Fin)
  have cw: "round_binary64 cw = Fin cw"
    unfolding num_of_ulong_bound(1) [OF assms(6)]
    by (rule round_binary64_of_nat) (rule num_of_ulong_bound(2) [OF assms(6)])
  have cw0: "0 \<le> cw" by (rule num_of_ulong_bound(3) [OF assms(6)])
  have ch: "round_binary64 ch = Fin ch"
    unfolding num_of_ulong_bound(1) [OF assms(7)]
    by (rule round_binary64_of_nat) (rule num_of_ulong_bound(2) [OF assms(7)])
  have ch0: "0 \<le> ch" by (rule num_of_ulong_bound(3) [OF assms(7)])
  have sgn: "b \<noteq> 0 \<Longrightarrow> 0 \<le> a \<Longrightarrow> (a / b < 0) = (a \<noteq> 0 \<and> b < 0)" for a b :: rat
    by (auto simp: divide_less_0_iff)
  have zero: "b \<noteq> 0 \<Longrightarrow> 0 \<le> a \<Longrightarrow> is_finite (round_binary64 (a / b)) \<Longrightarrow>
      js_mul (Fin 0) (if a = 0 \<and> b < 0 then NZero else round_binary64 (a / b)) = signed_zero (b < 0)"
    for a b :: rat
    using js_mul_zero_left [of "a / b"] by (auto simp: sgn)
  have corner: "b \<noteq> 0 \<Longrightarrow> round_binary64 a = Fin a \<Longrightarrow>
      js_mul (Fin b) (if a = 0 \<and> b < 0 then NZero else Fin (a / b)) = Fin a" for a b :: rat
    by auto
  show ?thesis
    unfolding X Y using assms(4,5) cw ch cw0 ch0
    by (auto simp: zero corner)
qed

theorem coordinate_mapping_witness:
  "event_x (mouse_at 100 50 (box 100 50 1075 604)) overlay0 = Fin 0
   \<and> event_y (mouse_at 100 50 (box 100 50 1075 604)) overlay0 = Fin 0
   \<and> event_x (mouse_at 964 536 (box 100 50 864 486)) overlay0 = Fin 1728
   \<and> event_y (mouse_at 964 536 (box 100 50 864 486)) overlay0 = Fin 972"
  using coordinate_mapping [of "mouse_at 100 50 (box 100 50 1075 604)" 100 50 100 50 1075 604 overlay0 1728 972]
    coordinate_mapping [of "mouse_at 964 536 (box 100 50 864 486)" 964 536 100 50 864 486 overlay0 1728 972]
  by (simp add: mouse_at_def overlay0_canvas new_canvas_def round_1728_1075 round_243_151)

section \<open>Starting a placement\<close>

text \<open>
  C3: a text that is empty or consists of white space only makes
  \<open>startAddingAnnotation\<close> fail with EmptyTextError, and the overlay is as it was;
  a click while Idle changes nothing; no event other than the button pressed on a
  text that is not blank takes the overlay out of Idle; and that event leads to
  AwaitingLabelClick with the trimmed text pending and the annotations untouched.
\<close>

theorem idle_totality:
  "((\<forall>c\<in>set t. is_white_space c) \<longrightarrow>
      startAddingAnnotation (s\<lparr>inputValue := t\<rparr>) = Inl EmptyTextError
      \<and> dispatch h (s\<lparr>inputValue := t\<rparr>) AddButton = s\<lparr>inputValue := t\<rparr>)
   \<and> (Idle s \<longrightarrow> canvas_click h k e s = s)
   \<and> (Idle s \<and> \<not> Idle (dispatch h s ev) \<longrightarrow>
        ev = AddButton \<and> \<not> (\<forall>c\<in>set (inputValue s). is_white_space c))
   \<and> (Idle s \<and> attached s \<and> \<not> (\<forall>c\<in>set (inputValue s). is_white_space c) \<longrightarrow>
        AwaitingLabelClick (dispatch h s AddButton)
        \<and> pendingText (dispatch h s AddButton) = trim (inputValue s)
        \<and> annotations (dispatch h s AddButton) = annotations s)"
proof (intro conjI impI)
  assume "\<forall>c\<in>set t. is_white_space c"
  then have "trim (inputValue (s\<lparr>inputValue := t\<rparr>)) = []" by (simp add: trim_eq_Nil_iff)
  from start_empty [OF this]
  show "startAddingAnnotation (s\<lparr>inputValue := t\<rparr>) = Inl EmptyTextError"
    and "dispatch h (s\<lparr>inputValue := t\<rparr>) AddButton = s\<lparr>inputValue := t\<rparr>"
    by (simp_all add: dispatch_def)
next
  assume "Idle s"
  then show "canvas_click h k e s = s" by (simp add: Idle_def idle_click)
next
  assume A: "Idle s \<and> \<not> Idle (dispatch h s ev)"
  then have i: "\<not> isAddingAnnotation s" "currentAnnotation s = None" by (simp_all add: Idle_def)
  have other: "ev \<noteq> AddButton \<Longrightarrow> Idle (dispatch h s ev)"
    using i by (cases ev)
      (simp_all add: dispatch_def Idle_def idle_click idle_mousemove cancel_def saveAndExit_def)
  have empty: "trim (inputValue s) = [] \<Longrightarrow> Idle (dispatch h s AddButton)"
    using i by (simp add: dispatch_def start_empty Idle_def)
  from A other empty show "ev = AddButton" by blast
  from A other empty show "\<not> (\<forall>c\<in>set (inputValue s). is_white_space c)"
    unfolding trim_eq_Nil_iff [symmetric] by blast
next
  assume A: "Idle s \<and> attached s \<and> \<not> (\<forall>c\<in>set (inputValue s). is_white_space c)"
  then have t: "trim (inputValue s) \<noteq> []" by (simp add: trim_eq_Nil_iff)
  from A have i: "\<not> isAddingAnnotation s" "currentAnnotation s = None" "attached s"
    by (simp_all add: Idle_def)
  show "AwaitingLabelClick (dispatch h s AddButton)"
    and "pendingText (dispatch h s AddButton) = trim (inputValue s)"
    and "annotations (dispatch h s AddButton) = annotations s"
    using i by (simp_all add: dispatch_simps start_ok [OF t] AwaitingLabelClick_def)
qed

theorem idle_totality_witness:
  "startAddingAnnotation (overlay0\<lparr>inputValue := js ''  ''\<rparr>) = Inl EmptyTextError
   \<and> dispatch host0 (overlay0\<lparr>inputValue := js ''  ''\<rparr>) AddButton = overlay0\<lparr>inputValue := js ''  ''\<rparr>
   \<and> Idle overlay0
   \<and> canvas_click host0 clock0 (mouse_at 120 80 full_box) overlay0 = overlay0
   \<and> Idle (overlay0\<lparr>inputValue := bug_here\<rparr>) \<and> attached (overlay0\<lparr>inputValue := bug_here\<rparr>)
   \<and> \<not> Idle (dispatch host0 (overlay0\<lparr>inputValue := bug_here\<rparr>) AddButton)
   \<and> AwaitingLabelClick (dispatch host0 (overlay0\<lparr>inputValue := bug_here\<rparr>) AddButton)
   \<and> pendingText (dispatch host0 (overlay0\<lparr>inputValue := bug_here\<rparr>) AddButton) = bug_here"
  using idle_totality [where t = "js ''  ''" and s = overlay0 and h = host0 and k = clock0
      and e = "mouse_at 120 80 full_box"]
    idle_totality [where s = "overlay0\<lparr>inputValue := bug_here\<rparr>" and h = host0 and ev = AddButton]
  by (simp add: Idle_def overlay0_eq trim_bug_here js_def is_white_space_def
      trim_eq_Nil_iff [symmetric] dispatch_simps start_ok)

section \<open>Cancel\<close>

text \<open>
  C4, as stated: \<open>cancel()\<close> leaves the length of the AnnotationSet unchanged. It does
  not: with one annotation committed and a second placement begun, the overlay is in
  AwaitingLabelClick with one annotation, and after \<open>cancel()\<close> the list is empty.
\<close>

theorem cancel_empties_annotations:
  "AwaitingLabelClick session_second \<and> length (annotations session_second) = 1
   \<and> length (annotations (cancel session_second)) = 0"
  by (simp add: session_second_def session_committed_eq overlay0_eq dispatch_simps
      startAddingAnnotation_def Let_def trim_def js_def is_white_space_def
      AwaitingLabelClick_def cancel_def)

text \<open>
  C4, amended: from AwaitingLabelClick or AwaitingTargetClick, \<open>cancel()\<close> returns the
  placement state to Idle, discards the pending text and the annotation in progress,
  and commits no record; it also drops the overlay's working copy of the AnnotationSet,
  whose length is 0 afterwards.
\<close>

theorem cancel_resets:
  "AwaitingLabelClick s \<or> AwaitingTargetClick s \<longrightarrow>
     Idle (cancel s) \<and> pendingText (cancel s) = [] \<and> currentAnnotation (cancel s) = None
     \<and> annotations (cancel s) = []"
  by (simp add: cancel_def Idle_def)

theorem cancel_resets_witness:
  "AwaitingTargetClick session_labelled
   \<and> Idle (cancel session_labelled) \<and> pendingText (cancel session_labelled) = []
   \<and> currentAnnotation (cancel session_labelled) = None
   \<and> annotations (cancel session_labelled) = []"
  using cancel_resets [of session_labelled]
  by (simp add: AwaitingTargetClick_def session_labelled_eq session_started_eq overlay0_eq)

section \<open>A layout box of no size\<close>

text \<open>
  C5, as stated: with a bounding box of zero width or height the mapping fails with
  DegenerateSurfaceError and produces no coordinate. It does not fail: with text pending,
  a click at \<open>(10, 10)\<close> while the canvas is laid out with no size is taken as the first
  click, and the annotation in progress gets \<open>Infinity\<close> for both coordinates.
\<close>

theorem degenerate_box_maps_to_infinity:
  "currentAnnotation (canvas_click host0 clock0 (mouse_at 10 10 empty_box) session_started) =
     Some (bug_record\<lparr>ann_x := PInf, ann_y := PInf, pointer_x := PInf, pointer_y := PInf\<rparr>)"
  by (simp add: first_click session_started_eq overlay0_eq empty_box_xy new_canvas_def
      bug_record_def clock0_def clock_strings)

text \<open>
  C5, amended: with a bounding box of zero width (height) the mapping raises no error and
  yields a value of \<open>x\<close> (\<open>y\<close>) that is not finite: \<open>NaN\<close> when the canvas is 0 wide (high)
  or the pointer is at the box's origin on that axis, otherwise \<open>Infinity\<close> with the sign of
  the pointer's offset from the origin.
\<close>

theorem degenerate_box_gives_non_finite:
  "(rect_width (boundingClientRect e) = Fin 0 \<longrightarrow>
      event_x e s =
        (if canvas_width (canvas s) = 0 then NaN
         else signed_inf (js_sign (js_sub (clientX e) (rect_left (boundingClientRect e)))))
      \<and> \<not> is_finite (event_x e s))
   \<and> (rect_height (boundingClientRect e) = Fin 0 \<longrightarrow>
      event_y e s =
        (if canvas_height (canvas s) = 0 then NaN
         else signed_inf (js_sign (js_sub (clientY e) (rect_top (boundingClientRect e)))))
      \<and> \<not> is_finite (event_y e s))"
  by (simp add: event_x_def event_y_def mul_div_zero)

theorem degenerate_box_gives_non_finite_witness:
  "rect_width (boundingClientRect (mouse_at 0 (- 3) empty_box)) = Fin 0
   \<and> rect_height (boundingClientRect (mouse_at 0 (- 3) empty_box)) = Fin 0
   \<and> event_x (mouse_at 0 (- 3) empty_box) overlay0 = NaN
   \<and> event_y (mouse_at 0 (- 3) empty_box) overlay0 = NInf"
  using degenerate_box_gives_non_finite [of "mouse_at 0 (- 3) empty_box" overlay0]
  by (simp add: mouse_at_def empty_box_def box_def overlay0_eq new_canvas_def js_sub_Fin
      js_sign_def signed_inf_def)

section \<open>No validation\<close>

text \<open>
  C6, as stated: a record with a non-finite position coordinate or with an empty text is
  rejected with InvalidAnnotationError and never enters the AnnotationSet. It enters: the
  second click of the session, made while the canvas is laid out with no size, commits
  the record with \<open>Infinity\<close> as both target coordinates; and a record with an empty text
  that is stored with a screenshot is in the working list once the overlay is opened.
\<close>

theorem non_finite_target_is_committed:
  "annotations (canvas_click host0 clock1 (mouse_at 10 10 empty_box) session_labelled) =
     [bug_record\<lparr>pointer_x := PInf, pointer_y := PInf\<rparr>]
   \<and> annotations
        (startAnnotationMode host0 (shot0\<lparr>shot_annotations := Some [bug_record\<lparr>ann_text := []\<rparr>]\<rparr>)
           initial_overlay) = [bug_record\<lparr>ann_text := []\<rparr>]"
  by (simp add: second_click session_labelled_eq session_started_eq overlay0_eq empty_box_xy
      new_canvas_def bug_record_def)

text \<open>
  C6, amended: nothing is validated where a record is appended or loaded, and there is
  no InvalidAnnotationError. In any state the overlay can reach from its construction, a
  click in AwaitingTargetClick appends the record in progress with the mapped position of
  the click as target, whatever that position is: positions outside the image are
  accepted, and so are non-finite ones. The text of the appended record is not empty,
  because a placement starts only on a text that is not blank. The annotations stored
  with a screenshot are taken over as they are.
\<close>

theorem commit_without_validation:
  "(AwaitingTargetClick (run h initial_overlay evs) \<longrightarrow>
      (\<exists>r. annotations (canvas_click h k e (run h initial_overlay evs)) =
              annotations (run h initial_overlay evs) @ [r]
           \<and> ann_text r \<noteq> []
           \<and> pointer_x r = event_x e (run h initial_overlay evs)
           \<and> pointer_y r = event_y e (run h initial_overlay evs)))
   \<and> annotations (startAnnotationMode h shot s) =
       (case shot_annotations shot of None \<Rightarrow> [] | Some anns \<Rightarrow> anns)"
proof (intro conjI impI)
  define s0 where "s0 = run h initial_overlay evs"
  assume "AwaitingTargetClick (run h initial_overlay evs)"
  then obtain a where a: "isAddingAnnotation s0" "currentAnnotation s0 = Some a"
    by (auto simp: AwaitingTargetClick_def s0_def)
  have "texts_nonempty s0"
    unfolding s0_def by (rule texts_nonempty_run) (rule initial_overlay_facts)
  with a have "ann_text a \<noteq> []" by (simp add: texts_nonempty_def)
  then show "\<exists>r. annotations (canvas_click h k e (run h initial_overlay evs)) =
              annotations (run h initial_overlay evs) @ [r]
           \<and> ann_text r \<noteq> []
           \<and> pointer_x r = event_x e (run h initial_overlay evs)
           \<and> pointer_y r = event_y e (run h initial_overlay evs)"
    unfolding s0_def [symmetric] by (simp add: second_click [OF a])
qed simp

theorem commit_without_validation_witness:
  "AwaitingTargetClick
     (run host0 initial_overlay
        [StartAnnotation shot0, TypeText bug_here, AddButton,
         CanvasClick clock0 (mouse_at 120 80 full_box)])
   \<and> annotations (canvas_click host0 clock1 far_click session_labelled) =
       [bug_record\<lparr>pointer_x := Fin 5000, pointer_y := Fin (- 40)\<rparr>]"
  using commit_without_validation [where h = host0 and k = clock1 and e = far_click
      and evs = "[StartAnnotation shot0, TypeText bug_here, AddButton,
         CanvasClick clock0 (mouse_at 120 80 full_box)]"]
  by (simp only: session_labelled_run)
    (simp add: AwaitingTargetClick_def second_click session_labelled_eq session_started_eq
      overlay0_eq new_canvas_def bug_record_def far_click_def event_x_def event_y_def
      mouse_at_def full_box_def box_def js_sub_Fin)

section \<open>Rendering\<close>



text \<open>
  C8: a render paints the whole picture of its inputs and nothing else. Rendering again
  changes nothing, not on the layer and not in the context. What is painted does not
  depend on what was on the layer, on the current path, or on the stroke style, fill
  style and line width left behind: nothing painted before the render is on the layer
  after it, and the layer is the picture \<open>rendered\<close> of the committed annotations, six
  shapes each in the order of the list, and of the label of the annotation in progress,
  two shapes. The render reads two settings of the context that it does not write first,
  the line dash and, for the label in progress when nothing is committed, the font; every
  handler leaves the dash empty and the font as the renders have set it. So in every
  state that the overlay can reach from its construction, with the overlay in the
  document, the layer after a render is a function of the annotations and the annotation
  in progress alone, and two such states with the same annotations and the same
  annotation in progress render the same layer.
\<close>

theorem render_deterministic:
  "drawAnnotations h (drawAnnotations h s) = drawAnnotations h s
   \<and> layer (canvas (drawAnnotations h
        (s\<lparr>canvas := (canvas s)\<lparr>layer := old, path := p, strokeStyle := c1, fillStyle := c2,
                                lineWidth := w\<rparr>\<rparr>))) = layer (canvas (drawAnnotations h s))
   \<and> layer (canvas (drawAnnotations h s)) =
       rendered h (lineDash (canvas s)) (font (canvas s)) (annotations s) (currentAnnotation s)
   \<and> length (layer (canvas (drawAnnotations h s))) =
       6 * length (annotations s) + (case currentAnnotation s of None \<Rightarrow> 0 | Some a \<Rightarrow> 2)
   \<and> (attached (run h initial_overlay evs) \<longrightarrow>
        layer (canvas (drawAnnotations h (run h initial_overlay evs))) =
          rendered h [] (js ''10px sans-serif'') (annotations (run h initial_overlay evs))
            (currentAnnotation (run h initial_overlay evs)))
   \<and> (attached (run h initial_overlay evs) \<and> attached (run h initial_overlay evs')
      \<and> annotations (run h initial_overlay evs') = annotations (run h initial_overlay evs)
      \<and> currentAnnotation (run h initial_overlay evs') = currentAnnotation (run h initial_overlay evs)
      \<longrightarrow> layer (canvas (drawAnnotations h (run h initial_overlay evs'))) =
           layer (canvas (drawAnnotations h (run h initial_overlay evs))))"
proof (intro conjI impI)
  show "drawAnnotations h (drawAnnotations h s) = drawAnnotations h s"
    by (simp add: drawAnnotations_eq render_canvas_idem)
  show "layer (canvas (drawAnnotations h
        (s\<lparr>canvas := (canvas s)\<lparr>layer := old, path := p, strokeStyle := c1, fillStyle := c2,
                                lineWidth := w\<rparr>\<rparr>))) = layer (canvas (drawAnnotations h s))"
    by simp
  show "layer (canvas (drawAnnotations h s)) =
       rendered h (lineDash (canvas s)) (font (canvas s)) (annotations s) (currentAnnotation s)"
    by simp
  show "length (layer (canvas (drawAnnotations h s))) =
       6 * length (annotations s) + (case currentAnnotation s of None \<Rightarrow> 0 | Some a \<Rightarrow> 2)"
    by (simp add: length_rendered)
next
  define u where "u = run h initial_overlay evs"
  assume "attached (run h initial_overlay evs)"
  then have A: "attached u" by (simp add: u_def)
  have "canvas_settled u"
    unfolding u_def by (rule canvas_settled_run, rule initial_overlay_facts)
  with A have "lineDash (canvas u) = []"
    "font (canvas u) = (if annotations u = [] then js ''10px sans-serif'' else js ''14px Arial'')"
    by (simp_all add: canvas_settled_def)
  then show "layer (canvas (drawAnnotations h (run h initial_overlay evs))) =
          rendered h [] (js ''10px sans-serif'') (annotations (run h initial_overlay evs))
            (currentAnnotation (run h initial_overlay evs))"
    unfolding u_def [symmetric] by (simp add: rendered_font)
next
  define u where "u = run h initial_overlay evs"
  define u' where "u' = run h initial_overlay evs'"
  assume "attached (run h initial_overlay evs) \<and> attached (run h initial_overlay evs')
      \<and> annotations (run h initial_overlay evs') = annotations (run h initial_overlay evs)
      \<and> currentAnnotation (run h initial_overlay evs') = currentAnnotation (run h initial_overlay evs)"
  then have A: "attached u" "attached u'" "annotations u' = annotations u"
    "currentAnnotation u' = currentAnnotation u"
    by (simp_all add: u_def u'_def)
  have "canvas_settled u" "canvas_settled u'"
    unfolding u_def u'_def by (rule canvas_settled_run, rule initial_overlay_facts)+
  with A have "lineDash (canvas u') = lineDash (canvas u)" "font (canvas u') = font (canvas u)"
    by (simp_all add: canvas_settled_def)
  with A show "layer (canvas (drawAnnotations h (run h initial_overlay evs'))) =
           layer (canvas (drawAnnotations h (run h initial_overlay evs)))"
    unfolding u_def [symmetric] u'_def [symmetric] by simp
qed

theorem render_deterministic_witness:
  "attached (run host0 initial_overlay
      ([StartAnnotation shot0] @ placement_events placement0
       @ [TypeText (js ''Second''), AddButton, CanvasClick clock1 (mouse_at 300 80 full_box)]))
   \<and> attached (run host0 initial_overlay
      ([StartAnnotation shot0] @ placement_events placement0
       @ [TypeText (js ''Second''), AddButton, CanvasClick clock1 (mouse_at 300 80 full_box),
          CanvasMove (mouse_at 120 200 full_box)]))
   \<and> annotations (run host0 initial_overlay
      ([StartAnnotation shot0] @ placement_events placement0
       @ [TypeText (js ''Second''), AddButton, CanvasClick clock1 (mouse_at 300 80 full_box)]))
      = [bug_record]
   \<and> annotations (run host0 initial_overlay
      ([StartAnnotation shot0] @ placement_events placement0
       @ [TypeText (js ''Second''), AddButton, CanvasClick clock1 (mouse_at 300 80 full_box),
          CanvasMove (mouse_at 120 200 full_box)]))
      = [bug_record]
   \<and> currentAnnotation (run host0 initial_overlay
      ([StartAnnotation shot0] @ placement_events placement0
       @ [TypeText (js ''Second''), AddButton, CanvasClick clock1 (mouse_at 300 80 full_box)]))
      = Some second_record
   \<and> currentAnnotation (run host0 initial_overlay
      ([StartAnnotation shot0] @ placement_events placement0
       @ [TypeText (js ''Second''), AddButton, CanvasClick clock1 (mouse_at 300 80 full_box),
          CanvasMove (mouse_at 120 200 full_box)]))
      = Some second_record
   \<and> length (layer (canvas (run host0 initial_overlay
      ([StartAnnotation shot0] @ placement_events placement0
       @ [TypeText (js ''Second''), AddButton, CanvasClick clock1 (mouse_at 300 80 full_box)]))))
      = 6
   \<and> length (layer (canvas (run host0 initial_overlay
      ([StartAnnotation shot0] @ placement_events placement0
       @ [TypeText (js ''Second''), AddButton, CanvasClick clock1 (mouse_at 300 80 full_box),
          CanvasMove (mouse_at 120 200 full_box)]))))
      = 9
   \<and> layer (canvas (drawAnnotations host0 (run host0 initial_overlay
      ([StartAnnotation shot0] @ placement_events placement0
       @ [TypeText (js ''Second''), AddButton, CanvasClick clock1 (mouse_at 300 80 full_box),
          CanvasMove (mouse_at 120 200 full_box)]))))
      = layer (canvas (drawAnnotations host0 (run host0 initial_overlay
      ([StartAnnotation shot0] @ placement_events placement0
       @ [TypeText (js ''Second''), AddButton, CanvasClick clock1 (mouse_at 300 80 full_box)]))))
   \<and> layer (canvas (drawAnnotations host0 (run host0 initial_overlay
      ([StartAnnotation shot0] @ placement_events placement0
       @ [TypeText (js ''Second''), AddButton, CanvasClick clock1 (mouse_at 300 80 full_box)]))))
      = [Stroke [MoveTo (Fin 120) (Fin 80), LineTo (Fin 300) (Fin 200)] (RGBA 255 0 0 1) (Fin 2) [],
         Stroke [MoveTo (Fin 300) (Fin 200), LineTo (Fin 288) (Fin 200),
                 MoveTo (Fin 300) (Fin 200), LineTo (Fin 288) (Fin 200)] (RGBA 255 0 0 1) (Fin 2) [],
         Fill [Arc (Fin 300) (Fin 200) (Fin 4) (Fin 0) (Fin (884279719003555 / 140737488355328))]
           (RGBA 255 0 0 1),
         FillRect (Fin 114) (Fin 58) (Fin 68) (Fin 28) (RGBA 255 255 255 (19 / 20)),
         StrokeRect (Fin 114) (Fin 58) (Fin 68) (Fin 28) (RGBA 255 0 0 1) (Fin 1) [],
         FillText bug_here (Fin 120) (Fin 76) (js ''14px Arial'') (RGBA 0 0 0 1),
         FillRect (Fin 296) (Fin 60) (Fin 50) (Fin 20) (RGBA 255 255 0 (4 / 5)),
         FillText (js ''Second'') (Fin 300) (Fin 76) (js ''14px Arial'') (RGBA 0 0 0 1)]"
proof -
  note f = session_hovering_facts
  have six: "length (layer (canvas session_second_labelled)) = 6"
    by (simp add: second_labelled_layer committed_layer)
  from render_deterministic [where h = host0 and s = session_second_labelled
      and old = "[]" and p = "[]" and ?c1.0 = "RGBA 0 0 0 1" and ?c2.0 = "RGBA 0 0 0 1"
      and w = "Fin 1"
      and evs = "[StartAnnotation shot0] @ placement_events placement0
         @ [TypeText (js ''Second''), AddButton, CanvasClick clock1 (mouse_at 300 80 full_box)]"
      and evs' = "[StartAnnotation shot0] @ placement_events placement0
         @ [TypeText (js ''Second''), AddButton, CanvasClick clock1 (mouse_at 300 80 full_box),
            CanvasMove (mouse_at 120 200 full_box)]"]
  have "(attached session_second_labelled \<longrightarrow>
          layer (canvas (drawAnnotations host0 session_second_labelled)) =
          rendered host0 [] (js ''10px sans-serif'') (annotations session_second_labelled)
            (currentAnnotation session_second_labelled))
        \<and> (attached session_second_labelled \<and> attached session_hovering
          \<and> annotations session_hovering = annotations session_second_labelled
          \<and> currentAnnotation session_hovering = currentAnnotation session_second_labelled
          \<longrightarrow> layer (canvas (drawAnnotations host0 session_hovering)) =
          layer (canvas (drawAnnotations host0 session_second_labelled)))"
    unfolding session_second_run by blast
  then have "layer (canvas (drawAnnotations host0 session_second_labelled)) =
          rendered host0 [] (js ''10px sans-serif'') [bug_record] (Some second_record)
        \<and> layer (canvas (drawAnnotations host0 session_hovering)) =
          layer (canvas (drawAnnotations host0 session_second_labelled))"
    by (simp only: f simp_thms)
  then show ?thesis
    unfolding session_second_run
    by (simp only: f six hovering_layer second_rendered committed_layer append.simps simp_thms)
qed
section \<open>Identifiers\<close>

lemma placements_run:
  assumes "attached s" "currentAnnotation s = None" "\<forall>p\<in>set ps. trim (label_text p) \<noteq> []"
  shows "map ann_id (annotations (run h s (concat (map placement_events ps)))) =
           map ann_id (annotations s) @ map (\<lambda>p. int_toString (now (first_clock p))) ps"
  using assms
proof (induction ps arbitrary: s)
  case Nil
  then show ?case by simp
next
  case (Cons p ps)
  define s1 where "s1 = run h s (placement_events p)"
  have t: "trim (label_text p) \<noteq> []" using Cons.prems(3) by simp
  have s1: "attached s1" "currentAnnotation s1 = None"
    "map ann_id (annotations s1) = map ann_id (annotations s) @ [int_toString (now (first_clock p))]"
    unfolding s1_def placement_events_def placement_run [OF Cons.prems(1,2) t]
    using Cons.prems(1) by (simp_all add: committed_record_def)
  have "\<forall>p\<in>set ps. trim (label_text p) \<noteq> []" using Cons.prems(3) by simp
  from Cons.IH [OF s1(1,2) this] show ?case
    by (simp add: s1(3) flip: s1_def)
qed

lemma distinct_ids: "distinct (map int_toString ks) \<longleftrightarrow> distinct ks"
  by (auto simp: distinct_map intro!: inj_onI dest: int_toString_inj)

text \<open>
  C9, as stated: the ids of the records committed into one AnnotationSet never collide.
  They do when the clock does not advance between two placements: the session's
  placement made twice, the clock reading 1700000000000 at both first clicks, commits
  two records with the same id.
\<close>

theorem ids_collide_on_equal_clock:
  "map ann_id (annotations (run host0 overlay0
      (placement_events placement0 @ placement_events placement0))) =
     [js ''1700000000000'', js ''1700000000000'']"
  using placements_run [of overlay0 "[placement0, placement0]" host0]
  by (simp add: overlay0_eq placement0_def trim_bug_here clock0_def clock_strings)

text \<open>
  C9, amended: the id of a committed record is the decimal rendering of the clock value,
  in milliseconds, read at the first click of its placement. For every series of
  placements into an AnnotationSet the ids of the new records are, in commit order, the
  renderings of those readings, and read back as numbers they are those readings: the
  ids are ordered as the readings are. They are pairwise distinct exactly when the
  readings are, and in particular when the readings strictly increase. Nothing makes
  the readings differ.
\<close>

theorem ids_follow_the_clock:
  assumes "attached s" "currentAnnotation s = None" "\<forall>p\<in>set ps. trim (label_text p) \<noteq> []"
  shows "map ann_id (annotations (run h s (concat (map placement_events ps)))) =
           map ann_id (annotations s) @ map (\<lambda>p. int_toString (now (first_clock p))) ps
    \<and> map parse_int (map (\<lambda>p. int_toString (now (first_clock p))) ps) =
         map (\<lambda>p. now (first_clock p)) ps
    \<and> (distinct (map (\<lambda>p. int_toString (now (first_clock p))) ps)
         \<longleftrightarrow> distinct (map (\<lambda>p. now (first_clock p)) ps))
    \<and> (sorted_wrt (<) (map (\<lambda>p. now (first_clock p)) ps)
         \<longrightarrow> distinct (map (\<lambda>p. int_toString (now (first_clock p))) ps))"
proof -
  have again: "map parse_int (map (\<lambda>p. int_toString (now (first_clock p))) ps) =
         map (\<lambda>p. now (first_clock p)) ps"
    by (simp add: parse_int_toString)
  have m: "map (\<lambda>p. int_toString (now (first_clock p))) ps =
           map int_toString (map (\<lambda>p. now (first_clock p)) ps)"
    by simp
  have "sorted_wrt (<) ks \<Longrightarrow> distinct ks" for ks :: "int list"
    by (simp add: strict_sorted_iff)
  then show ?thesis
    unfolding m distinct_ids using placements_run [OF assms, of h] again
    by (auto simp: m)
qed

theorem ids_follow_the_clock_witness:
  "attached overlay0 \<and> currentAnnotation overlay0 = None
   \<and> trim (label_text placement0) \<noteq> []
   \<and> sorted_wrt (<) (map (\<lambda>p. now (first_clock p)) [placement0, placement0\<lparr>first_clock := clock1\<rparr>])
   \<and> map ann_id (annotations (run host0 overlay0
        (concat (map placement_events [placement0, placement0\<lparr>first_clock := clock1\<rparr>])))) =
       [js ''1700000000000'', js ''1700000002500'']
   \<and> map parse_int [js ''1700000000000'', js ''1700000002500''] =
       [1700000000000, 1700000002500]
   \<and> distinct [js ''1700000000000'', js ''1700000002500'' :: jsstring]"
proof -
  have h: "attached overlay0" "currentAnnotation overlay0 = None"
    "\<forall>p\<in>set [placement0, placement0\<lparr>first_clock := clock1\<rparr>]. trim (label_text p) \<noteq> []"
    by (simp_all add: overlay0_eq placement0_def trim_bug_here)
  from ids_follow_the_clock [OF h, of host0] show ?thesis
    by (simp add: h) (simp add: overlay0_eq placement0_def clock0_def clock1_def clock_strings
        trim_bug_here)
qed

section \<open>Pressing the button again\<close>

text \<open>
  C10: when the button is pressed while an annotation is in progress, the annotation in
  progress keeps its text and label position and the overlay stays in
  AwaitingTargetClick, whatever the text in the input is. On a text that is not blank
  only the pending text becomes the new trimmed text (on a blank one nothing changes).
  The next click commits the annotation in progress with the text it had, and the
  pending text is still the new one.
\<close>

theorem restart_keeps_annotation_in_progress:
  assumes "attached s" "isAddingAnnotation s" "currentAnnotation s = Some a"
  shows "startAddingAnnotation (s\<lparr>inputValue := t\<rparr>) =
           (if trim t = [] then Inl EmptyTextError
            else Inr (s\<lparr>inputValue := t, pendingText := trim t,
                        canvas := (canvas s)\<lparr>cursor := js ''crosshair''\<rparr>,
                        statusText := js ''Click where to place the text''\<rparr>))
    \<and> currentAnnotation (dispatch h (s\<lparr>inputValue := t\<rparr>) AddButton) = Some a
    \<and> AwaitingTargetClick (dispatch h (s\<lparr>inputValue := t\<rparr>) AddButton)
    \<and> annotations (dispatch h (s\<lparr>inputValue := t\<rparr>) AddButton) = annotations s
    \<and> pendingText (dispatch h (s\<lparr>inputValue := t\<rparr>) AddButton) =
        (if trim t = [] then pendingText s else trim t)
    \<and> annotations (canvas_click h k e (dispatch h (s\<lparr>inputValue := t\<rparr>) AddButton)) =
        annotations s @ [a\<lparr>pointer_x := event_x e s, pointer_y := event_y e s\<rparr>]
    \<and> ann_text (last (annotations (canvas_click h k e (dispatch h (s\<lparr>inputValue := t\<rparr>) AddButton))))
        = ann_text a
    \<and> pendingText (canvas_click h k e (dispatch h (s\<lparr>inputValue := t\<rparr>) AddButton)) =
        (if trim t = [] then pendingText s else trim t)"
proof -
  define s' where "s' = dispatch h (s\<lparr>inputValue := t\<rparr>) AddButton"
  have st: "startAddingAnnotation (s\<lparr>inputValue := t\<rparr>) =
           (if trim t = [] then Inl EmptyTextError
            else Inr (s\<lparr>inputValue := t, pendingText := trim t,
                        canvas := (canvas s)\<lparr>cursor := js ''crosshair''\<rparr>,
                        statusText := js ''Click where to place the text''\<rparr>))"
    using assms(2) by (simp add: startAddingAnnotation_def Let_def)
  have d: "s' = (if trim t = [] then s\<lparr>inputValue := t\<rparr>
                 else s\<lparr>inputValue := t, pendingText := trim t,
                        canvas := (canvas s)\<lparr>cursor := js ''crosshair''\<rparr>,
                        statusText := js ''Click where to place the text''\<rparr>)"
    using assms(1) by (simp add: s'_def dispatch_simps st)
  have a: "isAddingAnnotation s'" "currentAnnotation s' = Some a" "annotations s' = annotations s"
    "pendingText s' = (if trim t = [] then pendingText s else trim t)"
    using assms by (simp_all add: d)
  have xy: "event_x e s' = event_x e s" "event_y e s' = event_y e s"
    by (simp_all add: event_x_def event_y_def d)
  have "currentAnnotation s' = Some a \<and> AwaitingTargetClick s'
          \<and> annotations s' = annotations s
          \<and> pendingText s' = (if trim t = [] then pendingText s else trim t)
          \<and> annotations (canvas_click h k e s') =
              annotations s @ [a\<lparr>pointer_x := event_x e s, pointer_y := event_y e s\<rparr>]
          \<and> ann_text (last (annotations (canvas_click h k e s'))) = ann_text a
          \<and> pendingText (canvas_click h k e s') = (if trim t = [] then pendingText s else trim t)"
    using a by (simp add: second_click [OF a(1,2)] xy AwaitingTargetClick_def)
  with st show ?thesis unfolding s'_def by blast
qed

theorem restart_keeps_annotation_in_progress_witness:
  "attached session_labelled \<and> isAddingAnnotation session_labelled
   \<and> currentAnnotation session_labelled = Some (bug_record\<lparr>pointer_x := Fin 120, pointer_y := Fin 80\<rparr>)
   \<and> trim (js '' Other '') = js ''Other''
   \<and> annotations (canvas_click host0 clock1 (mouse_at 300 200 full_box)
         (dispatch host0 (session_labelled\<lparr>inputValue := js '' Other ''\<rparr>) AddButton)) = [bug_record]
   \<and> pendingText (canvas_click host0 clock1 (mouse_at 300 200 full_box)
         (dispatch host0 (session_labelled\<lparr>inputValue := js '' Other ''\<rparr>) AddButton)) = js ''Other''"
proof -
  have s: "attached session_labelled" "isAddingAnnotation session_labelled"
    "currentAnnotation session_labelled = Some (bug_record\<lparr>pointer_x := Fin 120, pointer_y := Fin 80\<rparr>)"
    by (simp_all add: session_labelled_eq session_started_eq overlay0_eq)
  have xy: "event_x (mouse_at 300 200 full_box) session_labelled = Fin 300"
    "event_y (mouse_at 300 200 full_box) session_labelled = Fin 200"
    by (simp_all add: full_box_xy session_labelled_eq session_started_eq overlay0_eq new_canvas_def)
  have anns: "annotations session_labelled = []"
    by (simp add: session_labelled_eq session_started_eq overlay0_eq)
  have rec: "bug_record\<lparr>pointer_x := Fin 120, pointer_y := Fin 80\<rparr>\<lparr>pointer_x := Fin 300, pointer_y := Fin 200\<rparr> = bug_record"
    by (simp add: bug_record_def)
  from restart_keeps_annotation_in_progress [OF s, of "js '' Other ''" host0 clock1 "mouse_at 300 200 full_box"]
  show ?thesis
    by (simp only: s xy anns rec trim_other append_Nil simp_thms if_False)
qed

end
